theory Spec2Isabelle
  imports Complex_Main
begin

section \<open>JavaScript values\<close>

text \<open>
  The values that flow through the fuzzer (\<^verbatim>\<open>ArgValueType\<close>, the \<^verbatim>\<open>any\<close> returned by
  the function under test, and the values a callable can throw). A \<^verbatim>\<open>number\<close> is
  either a finite number or one of the three special values that \<^verbatim>\<open>implicitOracle\<close>
  tests for; an object is the list of its own enumerable properties in property order;
  \<open>JFunction\<close> stands for a value whose \<^verbatim>\<open>typeof\<close> is \<^verbatim>\<open>"function"\<close>.
\<close>

datatype jsnumber = Finite real | NaN | PosInfinity | NegInfinity

text \<open>
  The operators \<^verbatim>\<open>>=\<close> and \<^verbatim>\<open><\<close> on numbers: a comparison with \<^verbatim>\<open>NaN\<close> is false.
  A counter of the loop is the number \<open>num i\<close>.
\<close>

fun jsGe :: "jsnumber \<Rightarrow> jsnumber \<Rightarrow> bool" where
  "jsGe NaN b = False"
| "jsGe a NaN = False"
| "jsGe PosInfinity b = True"
| "jsGe a NegInfinity = True"
| "jsGe (Finite x) (Finite y) = (x \<ge> y)"
| "jsGe (Finite x) PosInfinity = False"
| "jsGe NegInfinity b = False"

fun jsLt :: "jsnumber \<Rightarrow> jsnumber \<Rightarrow> bool" where
  "jsLt NaN b = False"
| "jsLt a NaN = False"
| "jsLt PosInfinity b = False"
| "jsLt a NegInfinity = False"
| "jsLt (Finite x) (Finite y) = (x < y)"
| "jsLt (Finite x) PosInfinity = True"
| "jsLt NegInfinity b = True"

abbreviation num :: "int \<Rightarrow> jsnumber" where
  "num i \<equiv> Finite (real_of_int i)"

datatype jsvalue =
    JUndefined
  | JNull
  | JBool bool
  | JNum jsnumber
  | JStr string
  | JArr "jsvalue list"
  | JObj "(string \<times> jsvalue) list"
  | JFunction

text \<open>\<^verbatim>\<open>boolean | undefined\<close>: \<open>None\<close> is \<^verbatim>\<open>undefined\<close>.\<close>

type_synonym jsbool = "bool option"

section \<open>The types of Types.ts, as Fuzzer.ts uses them\<close>

datatype FuzzResultCategory = ok | badValue | exception_cat | timeout_cat | disagree | failure

datatype FuzzStopReason = CRASH | MAXTIME | MAXFAILURES | MAXTESTS | MAXDUPES

text \<open>
  \<^verbatim>\<open>FuzzIoElement\<close>: \<^verbatim>\<open>{name, offset, value}\<close> and the optional markers
  \<^verbatim>\<open>isTimeout\<close>, \<^verbatim>\<open>isException\<close> that \<^verbatim>\<open>actualEqualsExpectedOutput\<close> reads
  (\<open>None\<close>: the property is absent). The field \<^verbatim>\<open>value\<close> is named \<open>ioValue\<close>.
\<close>

record FuzzIoElement =
  name :: string
  offset :: int
  ioValue :: jsvalue
  isTimeout :: "bool option"
  isException :: "bool option"

text \<open>
  \<^verbatim>\<open>FuzzPinnedTest\<close>, and \<^verbatim>\<open>FuzzTestResult\<close> which has the same four fields and the
  outcome of the test (the field \<^verbatim>\<open>output\<close> is named \<open>output_list\<close>). An optional property is an \<open>option\<close> (\<open>None\<close>: absent), so
  \<open>passedValidator = Some None\<close> is the property present with the value
  \<^verbatim>\<open>undefined\<close>. The message, stack and elapsed-time fields are left out: they are
  written and never read by the code modelled here.
\<close>

record FuzzPinnedTest =
  input :: "FuzzIoElement list"
  output_list :: "FuzzIoElement list"
  pinned :: bool
  expectedOutput :: "FuzzIoElement list option"

record FuzzTestResult = FuzzPinnedTest +
  exception :: bool
  validatorException :: bool
  timeout :: bool
  passedImplicit :: bool
  passedHuman :: "bool option"
  passedValidator :: "jsbool option"
  passedValidators :: "jsbool list option"
  category :: FuzzResultCategory

text \<open>
  \<^verbatim>\<open>FuzzOptions\<close>. \<open>argDefaultsValid\<close> is the value of
  \<^verbatim>\<open>ArgDef.isOptionValid(options.argDefaults)\<close>, whose code is not part of Fuzzer.ts.
  The numeric options are JavaScript numbers: \<^verbatim>\<open>Infinity\<close> and \<^verbatim>\<open>NaN\<close> are among them.
\<close>

record FuzzOptions =
  maxTests :: jsnumber
  maxDupeInputs :: jsnumber
  maxFailures :: jsnumber
  suiteTimeout :: jsnumber
  fnTimeout :: jsnumber
  onlyFailures :: bool
  useImplicit :: bool
  useHuman :: bool
  useProperty :: bool
  argDefaultsValid :: bool

text \<open>
  \<^verbatim>\<open>FuzzEnv\<close>. Of \<^verbatim>\<open>env.function\<close> the loop reads the name, the argument
  definitions (name and offset of each) and \<^verbatim>\<open>isVoid()\<close>; \<open>validators\<close> holds the
  names of the validator functions.
\<close>

record FuzzEnv =
  options :: FuzzOptions
  fnName :: string
  argDefs :: "(string \<times> int) list"
  isVoid :: bool
  validators :: "string list"

text \<open>The simplified record \<^verbatim>\<open>Result\<close> that a validator receives.\<close>

record Result =
  r_in :: "jsvalue list"
  r_out :: jsvalue
  r_exception :: bool
  r_timeout :: bool

text \<open>The aggregate \<^verbatim>\<open>FuzzTestResults\<close> (without \<^verbatim>\<open>env\<close> and \<^verbatim>\<open>elapsedTime\<close>).\<close>

record FuzzTestResults =
  stopReason :: FuzzStopReason
  res_inputsGenerated :: int
  res_dupesGenerated :: int
  res_inputsSaved :: int
  res_results :: "FuzzTestResult list"

section \<open>What the run is given from outside\<close>

text \<open>
  What a call of a JavaScript function under the \<^verbatim>\<open>vm\<close> watchdog does: it returns a
  value, throws a value, or is still running when the time budget ends.
\<close>

datatype 'a outcome = Returned 'a | Raised jsvalue | TimedOut

datatype member = NotFunction | Function "nat \<Rightarrow> jsvalue list \<Rightarrow> jsvalue outcome"

text \<open>
  The surroundings of one run of \<^verbatim>\<open>fuzz\<close>:
  \<^item> \<open>clock\<close>: the successive readings of \<^verbatim>\<open>new Date().getTime()\<close>; reading 0 is
    \<^verbatim>\<open>startTime\<close>, reading \<open>k + 1\<close> is taken by the stop check of iteration \<open>k\<close>;
  \<^item> \<open>genValue n i\<close>: the value that the generator of argument \<open>i\<close> returns in the
    \<open>n\<close>-th generation cycle (the generators share one seeded PRNG);
  \<^item> \<open>modl\<close>: the exported members of the loaded module, by name; a function is given
    the number of the iteration that calls it and the argument values;
  \<^item> \<open>callValidator nm k\<close>: what \<^verbatim>\<open>mod[nm](validatorIn)\<close> does in iteration \<open>k\<close>;
  \<^item> \<open>stringify\<close>: \<^verbatim>\<open>JSON5.stringify\<close> on a list of io elements;
  \<^item> \<open>jsonCopy\<close>: \<^verbatim>\<open>JSON5.parse(JSON5.stringify(v))\<close> on one value.
\<close>

record World =
  clock :: "nat \<Rightarrow> int"
  genValue :: "nat \<Rightarrow> nat \<Rightarrow> jsvalue"
  modl :: "string \<rightharpoonup> member"
  callValidator :: "string \<Rightarrow> nat \<Rightarrow> Result \<Rightarrow> bool outcome"
  stringify :: "FuzzIoElement list \<Rightarrow> string"
  jsonCopy :: "jsvalue \<Rightarrow> jsvalue"

text \<open>
  How a call of \<^verbatim>\<open>fuzz\<close> can end without a result: the three \<^verbatim>\<open>throw\<close> statements
  before the loop, and an exception that no \<^verbatim>\<open>catch\<close> of the loop handles.
\<close>

datatype fuzz_error =
    InvalidOptions
  | TargetNotFound
  | TargetNotFunction
  | Uncaught jsvalue

section \<open>The functions of Fuzzer.ts\<close>

subsection \<open>\<^verbatim>\<open>_checkStopCondition\<close>\<close>

text \<open>The first argument is the clock reading that the call takes.\<close>

definition checkStopCondition ::
  "int \<Rightarrow> FuzzEnv \<Rightarrow> int \<Rightarrow> int \<Rightarrow> int \<Rightarrow> int \<Rightarrow> int \<Rightarrow> FuzzStopReason option" where
  "checkStopCondition now env inputsGenerated currentDupeCount totalDupeCount failureCount startTime =
     (if jsGe (num (now - startTime)) (suiteTimeout (options env)) then Some MAXTIME
      else if jsGe (num (inputsGenerated - totalDupeCount)) (maxTests (options env))
        then Some MAXTESTS
      else if maxFailures (options env) \<noteq> Finite 0
              \<and> jsGe (num failureCount) (maxFailures (options env))
        then Some MAXFAILURES
      else if jsGe (num currentDupeCount) (maxDupeInputs (options env)) then Some MAXDUPES
      else None)"

subsection \<open>\<^verbatim>\<open>isOptionValid\<close>\<close>

definition isOptionValid :: "FuzzOptions \<Rightarrow> bool" where
  "isOptionValid opts =
     (jsGe (maxTests opts) (Finite 0) \<and> jsGe (maxDupeInputs opts) (Finite 0)
      \<and> jsGe (maxFailures opts) (Finite 0) \<and> argDefaultsValid opts)"

subsection \<open>\<^verbatim>\<open>implicitOracle\<close>\<close>

text \<open>\<^verbatim>\<open>Array.prototype.flat()\<close>: one level of nesting is removed.\<close>

definition flat :: "jsvalue list \<Rightarrow> jsvalue list" where
  "flat xs = concat (map (\<lambda>e. case e of JArr ys \<Rightarrow> ys | _ \<Rightarrow> [e]) xs)"

lemma size_flat_elem:
  "e \<in> set (flat xs) \<Longrightarrow> size e < Suc (size_list size xs)"
proof (induction xs)
  case Nil
  then show ?case by (simp add: flat_def)
next
  case (Cons x xs)
  from Cons.prems have "e \<in> set (flat [x]) \<or> e \<in> set (flat xs)"
    by (auto simp: flat_def)
  then show ?case
  proof
    assume "e \<in> set (flat [x])"
    then have "size e \<le> size x"
      by (cases x) (auto simp: flat_def dest: size_list_estimation' [where f = size and y = "size e"]
                          intro: less_imp_le size_list_estimation)
    then show ?thesis by simp
  next
    assume "e \<in> set (flat xs)"
    with Cons.IH show ?thesis by simp
  qed
qed


lemma size_obj_elem:
  "(k, e) \<in> set ps \<Longrightarrow> size e < Suc (size_list (size_prod (\<lambda>_. 0) size) ps)"
  by (induction ps) force+

function implicitOracle :: "jsvalue \<Rightarrow> bool" where
  "implicitOracle (JArr xs) = (\<not> list_ex (\<lambda>e. \<not> implicitOracle e) (flat xs))"
| "implicitOracle (JNum x) = (\<not> (x = NaN \<or> x = PosInfinity \<or> x = NegInfinity))"
| "implicitOracle JNull = False"
| "implicitOracle JUndefined = False"
| "implicitOracle (JObj ps) = (\<not> list_ex (\<lambda>e. \<not> implicitOracle e) (map snd ps))"
| "implicitOracle (JBool b) = True"
| "implicitOracle (JStr s) = True"
| "implicitOracle JFunction = True"
  by pat_completeness auto
termination
  by (relation "measure size") (auto dest: size_flat_elem size_obj_elem)

text \<open>
  The claim's own wording of the same property, to compare with the code: a value is
  rejected when it is, or recursively contains (arrays element-wise, objects value-wise),
  one of \<^verbatim>\<open>null\<close>, \<^verbatim>\<open>undefined\<close>, \<^verbatim>\<open>NaN\<close>, \<^verbatim>\<open>Infinity\<close>, \<^verbatim>\<open>-Infinity\<close>.
\<close>

fun containsDisallowed :: "jsvalue \<Rightarrow> bool" where
  "containsDisallowed JNull = True"
| "containsDisallowed JUndefined = True"
| "containsDisallowed (JNum x) = (x = NaN \<or> x = PosInfinity \<or> x = NegInfinity)"
| "containsDisallowed (JArr xs) = list_ex containsDisallowed xs"
| "containsDisallowed (JObj ps) = list_ex (\<lambda>(k, v). containsDisallowed v) ps"
| "containsDisallowed (JBool b) = False"
| "containsDisallowed (JStr s) = False"
| "containsDisallowed JFunction = False"

subsection \<open>\<^verbatim>\<open>functionTimeout\<close> and \<^verbatim>\<open>isTimeoutError\<close>\<close>

text \<open>
  The error that \<^verbatim>\<open>script.runInNewContext\<close> throws when the budget is exceeded. The
  watchdog ends the running script past every \<^verbatim>\<open>catch\<close> inside it, so the wrapper
  throws this error whatever the wrapped function would have caught.
\<close>

definition timeoutError :: jsvalue where
  "timeoutError = JObj [(''code'', JStr ''ERR_SCRIPT_EXECUTION_TIMEOUT'')]"

text \<open>
  \<^verbatim>\<open>script.runInNewContext(context, { timeout: timeout })\<close> accepts as timeout an integer
  from 1 to \<open>2\<^sup>3\<^sup>2 - 1\<close>; for any other number it throws a \<^verbatim>\<open>RangeError\<close> with the
  code \<^verbatim>\<open>ERR_OUT_OF_RANGE\<close> before the script runs.
\<close>

definition validTimeout :: "jsnumber \<Rightarrow> bool" where
  "validTimeout t =
     (case t of
        Finite r \<Rightarrow> real_of_int \<lfloor>r\<rfloor> = r \<and> 1 \<le> r \<and> r \<le> 4294967295
      | _ \<Rightarrow> False)"

definition rangeError :: jsvalue where
  "rangeError = JObj [(''code'', JStr ''ERR_OUT_OF_RANGE'')]"

text \<open>
  The wrapper: \<open>Inl\<close> is the value it throws, \<open>Inr\<close> the value it returns. With a valid
  budget, whether the budget is exceeded is part of what the wrapped function does.
\<close>

definition functionTimeout :: "('x \<Rightarrow> 'a outcome) \<Rightarrow> jsnumber \<Rightarrow> 'x \<Rightarrow> jsvalue + 'a" where
  "functionTimeout fn budget args =
     (if \<not> validTimeout budget then Inl rangeError
      else
        (case fn args of
           Returned v \<Rightarrow> Inr v
         | Raised e \<Rightarrow> Inl e
         | TimedOut \<Rightarrow> Inl timeoutError))"

text \<open>
  \<^verbatim>\<open>"code" in error && error.code === "ERR_SCRIPT_EXECUTION_TIMEOUT"\<close>. The operator
  \<^verbatim>\<open>in\<close> throws a TypeError when its right operand is not an object.
\<close>

definition typeError :: jsvalue where
  "typeError = JObj [(''name'', JStr ''TypeError'')]"

fun isTimeoutError :: "jsvalue \<Rightarrow> jsvalue + bool" where
  "isTimeoutError (JObj ps) =
     Inr (map_of ps ''code'' \<noteq> None \<and> map_of ps ''code'' = Some (JStr ''ERR_SCRIPT_EXECUTION_TIMEOUT''))"
| "isTimeoutError (JArr xs) = Inr False"
| "isTimeoutError JFunction = Inr False"
| "isTimeoutError JUndefined = Inl typeError"
| "isTimeoutError JNull = Inl typeError"
| "isTimeoutError (JBool b) = Inl typeError"
| "isTimeoutError (JNum x) = Inl typeError"
| "isTimeoutError (JStr s) = Inl typeError"

subsection \<open>\<^verbatim>\<open>actualEqualsExpectedOutput\<close>\<close>

definition actualEqualsExpectedOutput ::
  "World \<Rightarrow> FuzzTestResult \<Rightarrow> FuzzIoElement list \<Rightarrow> bool" where
  "actualEqualsExpectedOutput w result expected =
     (if timeout result then
        (case expected of [] \<Rightarrow> False | e # _ \<Rightarrow> isTimeout e = Some True)
      else if exception result then
        (case expected of [] \<Rightarrow> False | e # _ \<Rightarrow> isException e = Some True)
      else stringify w (output_list result) = stringify w expected)"

subsection \<open>\<^verbatim>\<open>categorizeResult\<close>\<close>

definition getBadValueType :: "FuzzTestResult \<Rightarrow> FuzzResultCategory" where
  "getBadValueType result =
     (if exception result then exception_cat
      else if timeout result then timeout_cat
      else badValue)"

definition getBadValueTypeProperty :: "FuzzTestResult \<Rightarrow> FuzzResultCategory" where
  "getBadValueTypeProperty result =
     (if passedValidator result = Some (Some True) then ok else badValue)"

text \<open>The three local constants \<^verbatim>\<open>implicit\<close>, \<^verbatim>\<open>human\<close> and \<^verbatim>\<open>property\<close>.\<close>

definition implicit_of :: "FuzzTestResult \<Rightarrow> bool" where
  "implicit_of result = (if passedImplicit result then True else False)"

definition human_of :: "FuzzTestResult \<Rightarrow> jsbool" where
  "human_of result =
     (case passedHuman result of
        Some b \<Rightarrow> Some (if b then True else False)
      | None \<Rightarrow> None)"

definition property_of :: "FuzzTestResult \<Rightarrow> jsbool" where
  "property_of result =
     (case passedValidator result of
        Some v \<Rightarrow> v
      | None \<Rightarrow> None)"

definition categorizeResult :: "FuzzTestResult \<Rightarrow> FuzzEnv \<Rightarrow> FuzzResultCategory" where
  "categorizeResult result env =
     (if validatorException result then failure
      else if human_of result = Some True then
        (if property_of result = Some False then disagree else ok)
      else if human_of result = Some False then
        (if property_of result = Some True then disagree else getBadValueType result)
      else
        (if property_of result = Some True then ok
         else if property_of result = Some False then getBadValueTypeProperty result
         else if implicit_of result then ok
         else getBadValueType result))"

text \<open>
  The decision table of the specification, row by row, with its sub-rule "by outcome
  kind" (\<open>threw\<close>: the call threw; \<open>timedOut\<close>: it exceeded its budget).
\<close>

definition byOutcomeKind :: "bool \<Rightarrow> bool \<Rightarrow> FuzzResultCategory" where
  "byOutcomeKind threw timedOut =
     (if threw then exception_cat else if timedOut then timeout_cat else badValue)"

fun precedenceTable :: "jsbool \<Rightarrow> jsbool \<Rightarrow> bool \<Rightarrow> bool \<Rightarrow> bool \<Rightarrow> FuzzResultCategory" where
  "precedenceTable (Some True) (Some False) implicit threw timedOut = disagree"
| "precedenceTable (Some True) (Some True) implicit threw timedOut = ok"
| "precedenceTable (Some True) None implicit threw timedOut = ok"
| "precedenceTable (Some False) (Some True) implicit threw timedOut = disagree"
| "precedenceTable (Some False) (Some False) implicit threw timedOut = byOutcomeKind threw timedOut"
| "precedenceTable (Some False) None implicit threw timedOut = byOutcomeKind threw timedOut"
| "precedenceTable None (Some True) implicit threw timedOut = ok"
| "precedenceTable None (Some False) implicit threw timedOut = badValue"
| "precedenceTable None None implicit threw timedOut =
     (if implicit then ok else byOutcomeKind threw timedOut)"


subsection \<open>The body of the main test loop of \<^verbatim>\<open>fuzz\<close>\<close>

text \<open>
  The local variables of \<^verbatim>\<open>fuzz\<close> that the loop changes; \<open>results\<close> is the list
  \<^verbatim>\<open>results.results\<close>. Two fields are not variables of the source: \<open>iter\<close> counts the
  iterations begun, and \<open>calls\<close> lists the \<^verbatim>\<open>result.input\<close> of every call of
  \<^verbatim>\<open>fnWrapper\<close>, in the order of the calls.
\<close>

record LoopState =
  pinnedTests :: "FuzzPinnedTest list"
  savedCount :: int
  currentDupeCount :: int
  totalDupeCount :: int
  inputsGenerated :: int
  failureCount :: int
  allInputs :: "string \<rightharpoonup> bool"
  results :: "FuzzTestResult list"
  iter :: nat
  calls :: "FuzzIoElement list list"

definition initialResult :: FuzzTestResult where
  "initialResult =
     \<lparr>input = [], output_list = [], pinned = False, expectedOutput = None,
      exception = False, validatorException = False, timeout = False,
      passedImplicit = True, passedHuman = None, passedValidator = None,
      passedValidators = None, category = ok\<rparr>"

text \<open>The input of the \<open>n\<close>-th generation cycle: one element per argument definition.\<close>

definition generateInput :: "World \<Rightarrow> FuzzEnv \<Rightarrow> nat \<Rightarrow> FuzzIoElement list" where
  "generateInput w env n =
     map (\<lambda>(i, (nm, off)).
            \<lparr>name = nm, offset = off, ioValue = genValue w n i,
             isTimeout = None, isException = None\<rparr>)
         (enumerate 0 (argDefs env))"

text \<open>
  Lines 172 to 194: \<^verbatim>\<open>pinnedTests.pop()\<close> removes and returns the last element of the
  list; when the list is empty a new input is generated.
\<close>

definition takeInput :: "World \<Rightarrow> FuzzEnv \<Rightarrow> LoopState \<Rightarrow> FuzzTestResult \<times> LoopState" where
  "takeInput w env s =
     (if pinnedTests s \<noteq> [] then
        (let pinnedTest = last (pinnedTests s) in
         (initialResult\<lparr>input := input pinnedTest, pinned := pinned pinnedTest,
                        expectedOutput := expectedOutput pinnedTest\<rparr>,
          s\<lparr>pinnedTests := butlast (pinnedTests s), savedCount := savedCount s + 1\<rparr>))
      else
        (initialResult\<lparr>input := generateInput w env (nat (inputsGenerated s))\<rparr>,
         s\<lparr>inputsGenerated := inputsGenerated s + 1\<rparr>))"

text \<open>\<^verbatim>\<open>JSON5.parse(JSON5.stringify(...))\<close> on a list of io elements and on a result.\<close>

definition copyElements :: "World \<Rightarrow> FuzzIoElement list \<Rightarrow> FuzzIoElement list" where
  "copyElements w es = map (\<lambda>e. e\<lparr>ioValue := jsonCopy w (ioValue e)\<rparr>) es"

definition copyResult :: "World \<Rightarrow> FuzzTestResult \<Rightarrow> FuzzTestResult" where
  "copyResult w result =
     result\<lparr>input := copyElements w (input result),
            output_list := copyElements w (output_list result),
            expectedOutput := map_option (copyElements w) (expectedOutput result)\<rparr>"

text \<open>Lines 124 to 126: the wrapper around the function under test.\<close>

definition fnWrapper ::
  "FuzzEnv \<Rightarrow> (jsvalue list \<Rightarrow> jsvalue outcome) \<Rightarrow> FuzzIoElement list \<Rightarrow> jsvalue + jsvalue" where
  "fnWrapper env fn =
     functionTimeout (\<lambda>inp. fn (map ioValue inp)) (fnTimeout (options env))"

text \<open>Lines 211 to 230: the call, and what the \<^verbatim>\<open>catch\<close> records.\<close>

definition callFunction ::
  "World \<Rightarrow> FuzzEnv \<Rightarrow> (jsvalue list \<Rightarrow> jsvalue outcome) \<Rightarrow> FuzzTestResult
    \<Rightarrow> jsvalue + FuzzTestResult" where
  "callFunction w env fn result =
     (case fnWrapper env fn (copyElements w (input result)) of
        Inr v \<Rightarrow>
          Inr (result\<lparr>output_list := output_list result @
                 [\<lparr>name = ''0'', offset = 0, ioValue = v,
                   isTimeout = None, isException = None\<rparr>]\<rparr>)
      | Inl e \<Rightarrow>
          (case isTimeoutError e of
             Inl err \<Rightarrow> Inl err
           | Inr t \<Rightarrow> Inr (if t then result\<lparr>timeout := True\<rparr> else result\<lparr>exception := True\<rparr>)))"

text \<open>An io element as the object that \<^verbatim>\<open>implicitOracle(e)\<close> inspects in line 245.\<close>

definition ioElementObject :: "FuzzIoElement \<Rightarrow> jsvalue" where
  "ioElementObject e =
     JObj ([(''name'', JStr (name e)), (''offset'', JNum (Finite (real_of_int (offset e)))),
            (''value'', ioValue e)]
           @ (case isTimeout e of None \<Rightarrow> [] | Some b \<Rightarrow> [(''isTimeout'', JBool b)])
           @ (case isException e of None \<Rightarrow> [] | Some b \<Rightarrow> [(''isException'', JBool b)]))"

text \<open>Lines 232 to 247: the implicit oracle.\<close>

definition implicitStep :: "FuzzEnv \<Rightarrow> FuzzTestResult \<Rightarrow> FuzzTestResult" where
  "implicitStep env result =
     (if useImplicit (options env) then
        (if exception result \<or> timeout result then result\<lparr>passedImplicit := False\<rparr>
         else if isVoid env then
           result\<lparr>passedImplicit :=
             \<not> list_ex (\<lambda>e. ioValue e \<noteq> JUndefined) (output_list result)\<rparr>
         else
           result\<lparr>passedImplicit :=
             \<not> list_ex (\<lambda>e. \<not> implicitOracle (ioElementObject e)) (output_list result)\<rparr>)
      else result)"

text \<open>Lines 249 to 256: the human oracle.\<close>

definition humanStep :: "World \<Rightarrow> FuzzEnv \<Rightarrow> FuzzTestResult \<Rightarrow> FuzzTestResult" where
  "humanStep w env result =
     (if useHuman (options env) then
        (case expectedOutput result of
           Some expected \<Rightarrow>
             result\<lparr>passedHuman := Some (actualEqualsExpectedOutput w result expected)\<rparr>
         | None \<Rightarrow> result)
      else result)"

text \<open>Lines 258 to 328: the validators.\<close>

definition validatorIn :: "FuzzTestResult \<Rightarrow> Result" where
  "validatorIn result =
     \<lparr>r_in = map ioValue (input result),
      r_out = (case output_list result of
                 [] \<Rightarrow> JStr ''timeout or exception''
               | e # _ \<Rightarrow> ioValue e),
      r_exception = exception result,
      r_timeout = timeout result\<rparr>"

text \<open>
  The function given to \<^verbatim>\<open>functionTimeout\<close> in line 267. Its \<^verbatim>\<open>catch\<close> reads
  \<^verbatim>\<open>e.message\<close>, which throws a TypeError when \<open>e\<close> is \<^verbatim>\<open>null\<close> or
  \<^verbatim>\<open>undefined\<close>.
\<close>

definition validatorBody ::
  "World \<Rightarrow> string \<Rightarrow> nat \<Rightarrow> FuzzTestResult \<Rightarrow> FuzzTestResult outcome" where
  "validatorBody w valFnName k result =
     (case callValidator w valFnName k (validatorIn result) of
        Returned validatorOut \<Rightarrow>
          Returned (result\<lparr>passedValidator := Some (Some validatorOut),
                           passedValidators := Some []\<rparr>)
      | Raised e \<Rightarrow>
          (if e = JNull \<or> e = JUndefined then Raised typeError
           else Returned (result\<lparr>validatorException := True\<rparr>))
      | TimedOut \<Rightarrow> TimedOut)"

definition validatorFnWrapper ::
  "World \<Rightarrow> FuzzEnv \<Rightarrow> string \<Rightarrow> nat \<Rightarrow> FuzzTestResult \<Rightarrow> jsvalue + FuzzTestResult" where
  "validatorFnWrapper w env valFnName k =
     functionTimeout (validatorBody w valFnName k) (fnTimeout (options env))"

text \<open>The \<^verbatim>\<open>for\<close> loop over \<^verbatim>\<open>env.validators\<close>, lines 264 to 321.\<close>

fun runValidators ::
  "World \<Rightarrow> FuzzEnv \<Rightarrow> nat \<Rightarrow> string list \<Rightarrow> FuzzTestResult \<Rightarrow> jsvalue + FuzzTestResult" where
  "runValidators w env k [] result = Inr result"
| "runValidators w env k (valFnName # rest) result =
     (case validatorFnWrapper w env valFnName k
             (copyResult w (result\<lparr>category := categorizeResult result env\<rparr>)) of
        Inl e \<Rightarrow> Inl e
      | Inr validatorResult \<Rightarrow>
          runValidators w env k rest
            (result\<lparr>category := categorizeResult result env,
                    passedValidators :=
                      Some ((case passedValidators result of Some l \<Rightarrow> l | None \<Rightarrow> [])
                            @ [property_of validatorResult]),
                    validatorException := validatorException validatorResult\<rparr>))"

text \<open>The operator \<^verbatim>\<open>&&\<close> on values that are \<^verbatim>\<open>true\<close>, \<^verbatim>\<open>false\<close> or \<^verbatim>\<open>undefined\<close>.\<close>

definition jsAnd :: "jsbool \<Rightarrow> jsbool \<Rightarrow> jsbool" where
  "jsAnd a b = (if a = Some True then b else a)"

definition validatorStep ::
  "World \<Rightarrow> FuzzEnv \<Rightarrow> nat \<Rightarrow> FuzzTestResult \<Rightarrow> jsvalue + FuzzTestResult" where
  "validatorStep w env k result =
     (if validators env \<noteq> [] \<and> useProperty (options env) then
        (case runValidators w env k (validators env) (result\<lparr>passedValidators := Some []\<rparr>) of
           Inl e \<Rightarrow> Inl e
         | Inr r \<Rightarrow>
             Inr (r\<lparr>passedValidator :=
                      Some (foldl jsAnd (Some True)
                              (case passedValidators r of Some l \<Rightarrow> l | None \<Rightarrow> []))\<rparr>))
      else Inr result)"

text \<open>Lines 211 to 331 for one input that is not a duplicate.\<close>

definition runTest ::
  "World \<Rightarrow> FuzzEnv \<Rightarrow> (nat \<Rightarrow> jsvalue list \<Rightarrow> jsvalue outcome) \<Rightarrow> nat \<Rightarrow> FuzzTestResult
    \<Rightarrow> jsvalue + FuzzTestResult" where
  "runTest w env fn k result =
     (case callFunction w env (fn k) result of
        Inl e \<Rightarrow> Inl e
      | Inr r1 \<Rightarrow>
          (case validatorStep w env k (humanStep w env (implicitStep env r1)) of
             Inl e \<Rightarrow> Inl e
           | Inr r2 \<Rightarrow> Inr (r2\<lparr>category := categorizeResult r2 env\<rparr>)))"

text \<open>Lines 333 to 341: the failure counter and the stored results.\<close>

definition storeResult :: "FuzzEnv \<Rightarrow> FuzzTestResult \<Rightarrow> LoopState \<Rightarrow> LoopState" where
  "storeResult env result s =
     s\<lparr>failureCount := (if category result \<noteq> ok then failureCount s + 1 else failureCount s),
       results := (if \<not> onlyFailures (options env) \<or> category result \<noteq> ok
                   then results s @ [result] else results s)\<rparr>"

text \<open>
  One iteration after the stop check, lines 159 to 341. \<open>Inl\<close>: an exception leaves the
  loop, and with it \<^verbatim>\<open>fuzz\<close>.
\<close>

definition iteration ::
  "World \<Rightarrow> FuzzEnv \<Rightarrow> (nat \<Rightarrow> jsvalue list \<Rightarrow> jsvalue outcome) \<Rightarrow> LoopState
    \<Rightarrow> jsvalue + LoopState" where
  "iteration w env fn s =
     (case takeInput w env s of
        (result, s1) \<Rightarrow>
          (let inputHash = stringify w (input result) in
           if allInputs s1 inputHash \<noteq> None then
             Inr (s1\<lparr>currentDupeCount := currentDupeCount s1 + 1,
                     totalDupeCount := totalDupeCount s1 + 1\<rparr>)
           else
             (case runTest w env fn (iter s) result of
                Inl e \<Rightarrow> Inl e
              | Inr result' \<Rightarrow>
                  Inr (storeResult env result'
                         (s1\<lparr>currentDupeCount := 0,
                             allInputs := (if argDefs env \<noteq> []
                                           then (allInputs s1)(inputHash \<mapsto> True)
                                           else allInputs s1),
                             calls := calls s1 @ [input result]\<rparr>)))))"


subsection \<open>The main test loop and \<^verbatim>\<open>fuzz\<close>\<close>


text \<open>Lines 151 to 155: the aggregate, filled in when a stop condition holds.\<close>

definition finalResults :: "FuzzStopReason \<Rightarrow> LoopState \<Rightarrow> FuzzTestResults" where
  "finalResults stopCondition s =
     \<lparr>stopReason = stopCondition,
      res_inputsGenerated = inputsGenerated s,
      res_dupesGenerated = totalDupeCount s,
      res_inputsSaved = savedCount s,
      res_results = results s\<rparr>"

text \<open>
  The loop of lines 140 to 342. Each pass first takes a clock reading and checks the stop
  conditions; on a stop the aggregate is filled in and returned. The loop need not end
  (with \<open>maxTests\<close> and \<open>maxDupeInputs\<close> \<^verbatim>\<open>Infinity\<close> and a clock that never reaches
  \<open>suiteTimeout\<close> no stop condition ever holds): \<open>None\<close> is a loop that runs forever,
  \<open>Some (Inl e)\<close> an exception that leaves it, \<open>Some (Inr res)\<close> its result.
\<close>

partial_function (option) fuzz_loop ::
  "World \<Rightarrow> FuzzEnv \<Rightarrow> (nat \<Rightarrow> jsvalue list \<Rightarrow> jsvalue outcome) \<Rightarrow> LoopState
    \<Rightarrow> (fuzz_error + FuzzTestResults) option" where
  "fuzz_loop w env fn s =
     (case checkStopCondition (clock w (Suc (iter s))) env (inputsGenerated s)
             (currentDupeCount s) (totalDupeCount s) (failureCount s) (clock w 0) of
        Some stopCondition \<Rightarrow> Some (Inr (finalResults stopCondition s))
      | None \<Rightarrow>
          (case iteration w env fn s of
             Inl e \<Rightarrow> Some (Inl (Uncaught e))
           | Inr s' \<Rightarrow> fuzz_loop w env fn (s'\<lparr>iter := Suc (iter s)\<rparr>)))"

declare fuzz_loop.simps [code]

definition initialState :: "FuzzPinnedTest list \<Rightarrow> LoopState" where
  "initialState pinned_tests =
     \<lparr>pinnedTests = pinned_tests, savedCount = 0, currentDupeCount = 0, totalDupeCount = 0,
      inputsGenerated = 0, failureCount = 0, allInputs = Map.empty, results = [],
      iter = 0, calls = []\<rparr>"

text \<open>
  \<^verbatim>\<open>fuzz\<close>: the option check of lines 87 to 90, the lookup of the function in the
  loaded module of lines 113 to 120, then the loop. Resolving, compiling and loading the
  module and building the generators (lines 69, 70 and 92 to 110) are taken as done:
  \<open>modl\<close> and \<open>genValue\<close> are their results. Writing the results to
  \<^verbatim>\<open>options.outputFile\<close> after the loop (lines 344 to 347) is left out.
\<close>

definition fuzz ::
  "World \<Rightarrow> FuzzEnv \<Rightarrow> FuzzPinnedTest list \<Rightarrow> (fuzz_error + FuzzTestResults) option" where
  "fuzz w env pinned_tests =
     (if \<not> isOptionValid (options env) then Some (Inl InvalidOptions)
      else
        (case modl w (fnName env) of
           None \<Rightarrow> Some (Inl TargetNotFound)
         | Some NotFunction \<Rightarrow> Some (Inl TargetNotFunction)
         | Some (Function fn) \<Rightarrow> fuzz_loop w env fn (initialState pinned_tests)))"


subsection \<open>Exceptions that the loop handles\<close>

text \<open>A thrown value on which \<^verbatim>\<open>"code" in e\<close> and \<^verbatim>\<open>e.message\<close> can be evaluated.\<close>

fun isObject :: "jsvalue \<Rightarrow> bool" where
  "isObject (JObj ps) = True"
| "isObject (JArr xs) = True"
| "isObject JFunction = True"
| "isObject v = False"

text \<open>
  The runs whose failures the two \<^verbatim>\<open>catch\<close> blocks of the loop handle: the function
  under test throws objects only (an \<^verbatim>\<open>Error\<close>, say), no validator exceeds its time
  budget or throws \<^verbatim>\<open>null\<close> or \<^verbatim>\<open>undefined\<close>, and \<open>fnTimeout\<close> is a timeout that the
  wrapper of a validator accepts, if validators are run at all.
\<close>

definition recovers ::
  "World \<Rightarrow> FuzzEnv \<Rightarrow> (nat \<Rightarrow> jsvalue list \<Rightarrow> jsvalue outcome) \<Rightarrow> bool" where
  "recovers w env fn \<longleftrightarrow>
     (\<forall>k args e. fn k args = Raised e \<longrightarrow> isObject e)
     \<and> (\<forall>nm\<in>set (validators env). \<forall>k r.
           callValidator w nm k r \<noteq> TimedOut
           \<and> callValidator w nm k r \<noteq> Raised JNull
           \<and> callValidator w nm k r \<noteq> Raised JUndefined)
     \<and> (validators env = [] \<or> \<not> useProperty (options env)
         \<or> validTimeout (fnTimeout (options env)))"

section \<open>A concrete run\<close>

text \<open>
  A module with a function \<open>f\<close> of one boolean argument that returns its argument, a
  function \<open>g\<close> that throws an \<^verbatim>\<open>Error\<close>, a function \<open>h\<close> that returns the string
  \<^verbatim>\<open>"timeout or exception"\<close>, a function \<open>z\<close> without arguments, a member \<open>c\<close> that is
  not a function, a validator \<open>fOk\<close> that accepts the output \<^verbatim>\<open>true\<close> and a validator
  \<open>fBad\<close> that throws. The generator alternates \<^verbatim>\<open>true\<close> and \<^verbatim>\<open>false\<close>, the clock
  stands still, and the serialization writes one letter per boolean argument. The
  theorems below are instantiated on runs in these surroundings.
\<close>

definition exampleOptions :: FuzzOptions where
  "exampleOptions =
     \<lparr>maxTests = Finite 3, maxDupeInputs = Finite 2, maxFailures = Finite 0,
      suiteTimeout = Finite 1000, fnTimeout = Finite 100,
      onlyFailures = False, useImplicit = True, useHuman = True, useProperty = True,
      argDefaultsValid = True\<rparr>"

definition exampleEnv :: FuzzEnv where
  "exampleEnv =
     \<lparr>options = exampleOptions, fnName = ''f'', argDefs = [(''a'', 0)], isVoid = False,
      validators = []\<rparr>"

definition exampleStringify :: "FuzzIoElement list \<Rightarrow> string" where
  "exampleStringify es =
     concat (map (\<lambda>e. if ioValue e = JBool True then ''T''
                        else if ioValue e = JBool False then ''F'' else ''?'') es)"

definition errorObject :: jsvalue where
  "errorObject = JObj [(''message'', JStr ''boom'')]"

definition exampleF :: "nat \<Rightarrow> jsvalue list \<Rightarrow> jsvalue outcome" where
  "exampleF k args = (case args of [] \<Rightarrow> Returned JUndefined | a # _ \<Rightarrow> Returned a)"

definition exampleG :: "nat \<Rightarrow> jsvalue list \<Rightarrow> jsvalue outcome" where
  "exampleG k args = Raised errorObject"

definition exampleH :: "nat \<Rightarrow> jsvalue list \<Rightarrow> jsvalue outcome" where
  "exampleH k args = Returned (JStr ''timeout or exception'')"

definition exampleZ :: "nat \<Rightarrow> jsvalue list \<Rightarrow> jsvalue outcome" where
  "exampleZ k args = Returned (JNum (Finite 1))"

definition exampleValidator :: "string \<Rightarrow> nat \<Rightarrow> Result \<Rightarrow> bool outcome" where
  "exampleValidator nm k r =
     (if nm = ''fBad'' then Raised errorObject else Returned (r_out r = JBool True))"

definition exampleWorld :: World where
  "exampleWorld =
     \<lparr>clock = (\<lambda>k. 0),
      genValue = (\<lambda>n i. JBool (even n)),
      modl = [''f'' \<mapsto> Function exampleF, ''g'' \<mapsto> Function exampleG,
              ''h'' \<mapsto> Function exampleH, ''z'' \<mapsto> Function exampleZ, ''c'' \<mapsto> NotFunction],
      callValidator = exampleValidator,
      stringify = exampleStringify,
      jsonCopy = (\<lambda>v. v)\<rparr>"

definition boolInput :: "bool \<Rightarrow> FuzzIoElement list" where
  "boolInput b =
     [\<lparr>name = ''a'', offset = 0, ioValue = JBool b, isTimeout = None, isException = None\<rparr>]"

definition pinnedBool :: "bool \<Rightarrow> FuzzPinnedTest" where
  "pinnedBool b = \<lparr>input = boolInput b, output_list = [], pinned = True, expectedOutput = None\<rparr>"

definition pinnedEmpty :: FuzzPinnedTest where
  "pinnedEmpty = \<lparr>input = [], output_list = [], pinned = True, expectedOutput = None\<rparr>"

text \<open>Some runs in these surroundings, and the results they store.\<close>

definition ioOut :: "jsvalue \<Rightarrow> FuzzIoElement" where
  "ioOut v = \<lparr>name = ''0'', offset = 0, ioValue = v, isTimeout = None, isException = None\<rparr>"

definition tested :: "bool \<Rightarrow> bool \<Rightarrow> FuzzTestResult" where
  "tested b p =
     \<lparr>input = boolInput b, output_list = [ioOut (JBool b)],
      pinned = p, expectedOutput = None, exception = False, validatorException = False,
      timeout = False, passedImplicit = True, passedHuman = None, passedValidator = None,
      passedValidators = None, category = ok\<rparr>"

definition oneTest :: "FuzzTestResult \<Rightarrow> FuzzTestResults" where
  "oneTest r =
     \<lparr>stopReason = MAXTESTS, res_inputsGenerated = 1, res_dupesGenerated = 0,
      res_inputsSaved = 0, res_results = [r]\<rparr>"

definition oneTestOptions :: FuzzOptions where
  "oneTestOptions = exampleOptions\<lparr>maxTests := Finite 1\<rparr>"

definition throwingEnv :: FuzzEnv where
  "throwingEnv = exampleEnv\<lparr>fnName := ''g'', options := oneTestOptions\<rparr>"

definition threw :: FuzzTestResult where
  "threw = (tested True False)\<lparr>output_list := [], exception := True, passedImplicit := False,
                                category := exception_cat\<rparr>"

definition voidEnv :: FuzzEnv where
  "voidEnv = exampleEnv\<lparr>isVoid := True, options := oneTestOptions\<rparr>"

definition sentinelEnv :: FuzzEnv where
  "sentinelEnv =
     exampleEnv\<lparr>fnName := ''h'', validators := [''fOk''], options := oneTestOptions\<rparr>"

definition returnedSentinel :: FuzzTestResult where
  "returnedSentinel =
     (tested True False)\<lparr>output_list := [ioOut (JStr ''timeout or exception'')],
        passedValidator := Some (Some False), passedValidators := Some [Some False],
        category := badValue\<rparr>"

definition badValidatorEnv :: FuzzEnv where
  "badValidatorEnv = exampleEnv\<lparr>validators := [''fBad'', ''fOk''], options := oneTestOptions\<rparr>"

definition validatorThrew :: FuzzTestResult where
  "validatorThrew =
     (tested True False)\<lparr>validatorException := True, passedValidator := Some None,
        passedValidators := Some [None, Some True], category := failure\<rparr>"

definition noOracleEnv :: FuzzEnv where
  "noOracleEnv = exampleEnv\<lparr>fnName := ''g'', options := oneTestOptions\<lparr>useImplicit := False\<rparr>\<rparr>"

definition pinnedRun :: FuzzTestResults where
  "pinnedRun =
     \<lparr>stopReason = MAXDUPES, res_inputsGenerated = 2, res_dupesGenerated = 2,
      res_inputsSaved = 2, res_results = [tested False True, tested True True]\<rparr>"

definition afterFirstPinned :: LoopState where
  "afterFirstPinned =
     \<lparr>pinnedTests = [pinnedBool True], savedCount = 1, currentDupeCount = 0, totalDupeCount = 0,
      inputsGenerated = 0, failureCount = 0, allInputs = [''F'' \<mapsto> True],
      results = [tested False True], iter = 0, calls = [boolInput False]\<rparr>"

definition afterFirstGenerated :: LoopState where
  "afterFirstGenerated =
     \<lparr>pinnedTests = [], savedCount = 0, currentDupeCount = 0, totalDupeCount = 0,
      inputsGenerated = 1, failureCount = 0, allInputs = [''T'' \<mapsto> True],
      results = [tested True False], iter = 0, calls = [boolInput True]\<rparr>"

definition claimOptions :: FuzzOptions where
  "claimOptions = exampleOptions\<lparr>maxTests := Finite 5, maxDupeInputs := Finite 100\<rparr>"

definition claimRun :: FuzzTestResults where
  "claimRun =
     \<lparr>stopReason = MAXDUPES, res_inputsGenerated = 102, res_dupesGenerated = 100,
      res_inputsSaved = 0, res_results = [tested True False, tested False False]\<rparr>"

definition zeroArgEnv :: FuzzEnv where
  "zeroArgEnv = exampleEnv\<lparr>fnName := ''z'', argDefs := []\<rparr>"

definition testedNothing :: "bool \<Rightarrow> FuzzTestResult" where
  "testedNothing p = (tested True p)\<lparr>input := [], output_list := [ioOut (JNum (Finite 1))]\<rparr>"

definition afterFirstOfTwo :: LoopState where
  "afterFirstOfTwo =
     \<lparr>pinnedTests = [pinnedBool True], savedCount = 1, currentDupeCount = 0, totalDupeCount = 0,
      inputsGenerated = 0, failureCount = 0, allInputs = [''T'' \<mapsto> True],
      results = [tested True True], iter = 0, calls = [boolInput True]\<rparr>"

definition secondTaken :: LoopState where
  "secondTaken = afterFirstOfTwo\<lparr>pinnedTests := [], savedCount := 2, iter := 1\<rparr>"

definition zeroArgRun :: FuzzTestResults where
  "zeroArgRun =
     \<lparr>stopReason = MAXTESTS, res_inputsGenerated = 3, res_dupesGenerated = 0,
      res_inputsSaved = 0,
      res_results = [testedNothing False, testedNothing False, testedNothing False]\<rparr>"

section \<open>Properties of the oracles and of the loop\<close>

subsection \<open>The implicit oracle and the claim's wording\<close>

lemma list_ex_flat:
  "list_ex containsDisallowed (flat xs) = list_ex containsDisallowed xs"
proof (induction xs)
  case Nil
  show ?case by (simp add: flat_def)
next
  case (Cons x xs)
  have "flat (x # xs) = flat [x] @ flat xs" by (simp add: flat_def)
  moreover have "list_ex containsDisallowed (flat [x]) = containsDisallowed x"
    by (cases x) (simp_all add: flat_def)
  ultimately show ?case using Cons.IH by simp
qed

lemma implicitOracle_iff: "implicitOracle x = (\<not> containsDisallowed x)"
proof (induction x rule: implicitOracle.induct)
  case (1 xs)
  have "list_ex (\<lambda>e. \<not> implicitOracle e) (flat xs) = list_ex containsDisallowed (flat xs)"
    using 1 by (auto simp: list_ex_iff)
  then show ?case by (simp add: list_ex_flat)
next
  case (5 ps)
  have "list_ex (\<lambda>e. \<not> implicitOracle e) (map snd ps) = list_ex (\<lambda>(k, v). containsDisallowed v) ps"
    using 5 by (force simp: list_ex_iff)
  then show ?case by simp
qed simp_all

subsection \<open>One test\<close>

lemma takeInput_fresh:
  "takeInput w env s = (r0, s1) \<Longrightarrow>
     output_list r0 = [] \<and> \<not> exception r0 \<and> \<not> timeout r0 \<and> \<not> validatorException r0
     \<and> passedImplicit r0 \<and> passedHuman r0 = None \<and> passedValidator r0 = None
     \<and> passedValidators r0 = None"
  by (auto simp: takeInput_def initialResult_def Let_def split: if_splits)

lemma takeInput_unchanged:
  assumes "takeInput w env s = (r0, s1)"
  shows "results s1 = results s" "calls s1 = calls s" "allInputs s1 = allInputs s"
    "currentDupeCount s1 = currentDupeCount s" "totalDupeCount s1 = totalDupeCount s"
    "failureCount s1 = failureCount s" "iter s1 = iter s"
  using assms by (auto simp: takeInput_def Let_def split: if_splits)

lemma iteration_results:
  assumes "iteration w env fn s = Inr s'"
  shows "results s' = results s
       \<or> (\<exists>r. runTest w env fn (iter s) (fst (takeInput w env s)) = Inr r
              \<and> results s' = results s @ [r])"
proof -
  obtain r0 s1 where t: "takeInput w env s = (r0, s1)" by (cases "takeInput w env s")
  from assms t takeInput_unchanged(1) [OF t] show ?thesis
    by (auto simp: iteration_def storeResult_def Let_def split: if_splits sum.splits)
qed

lemma callFunction_cases:
  assumes "callFunction w env f r0 = Inr r1"
  shows "(\<exists>v. fnWrapper env f (copyElements w (input r0)) = Inr v
            \<and> r1 = r0\<lparr>output_list := output_list r0 @
                 [\<lparr>name = ''0'', offset = 0, ioValue = v,
                   isTimeout = None, isException = None\<rparr>]\<rparr>)
       \<or> (\<exists>e. fnWrapper env f (copyElements w (input r0)) = Inl e
            \<and> (r1 = r0\<lparr>timeout := True\<rparr> \<or> r1 = r0\<lparr>exception := True\<rparr>))"
  using assms by (auto simp: callFunction_def split: sum.splits if_splits)

lemma implicitStep_fields [simp]:
  "input (implicitStep env r) = input r"
  "output_list (implicitStep env r) = output_list r"
  "expectedOutput (implicitStep env r) = expectedOutput r"
  "exception (implicitStep env r) = exception r"
  "timeout (implicitStep env r) = timeout r"
  "validatorException (implicitStep env r) = validatorException r"
  "passedHuman (implicitStep env r) = passedHuman r"
  "passedValidator (implicitStep env r) = passedValidator r"
  by (simp_all add: implicitStep_def)

lemma humanStep_fields [simp]:
  "input (humanStep w env r) = input r"
  "output_list (humanStep w env r) = output_list r"
  "expectedOutput (humanStep w env r) = expectedOutput r"
  "exception (humanStep w env r) = exception r"
  "timeout (humanStep w env r) = timeout r"
  "validatorException (humanStep w env r) = validatorException r"
  "passedImplicit (humanStep w env r) = passedImplicit r"
  "passedValidator (humanStep w env r) = passedValidator r"
  by (simp_all add: humanStep_def split: option.splits)

lemma validatorIn_copy_update [simp]:
  "validatorIn (copyResult w (r\<lparr>category := c\<rparr>)) = validatorIn (copyResult w r)"
  "validatorIn (copyResult w (r\<lparr>passedValidators := pvs\<rparr>)) = validatorIn (copyResult w r)"
  "validatorIn (copyResult w (r\<lparr>passedValidator := pv\<rparr>)) = validatorIn (copyResult w r)"
  "validatorIn (copyResult w (r\<lparr>validatorException := b\<rparr>)) = validatorIn (copyResult w r)"
  "validatorIn (copyResult w (r\<lparr>passedImplicit := b\<rparr>)) = validatorIn (copyResult w r)"
  "validatorIn (copyResult w (r\<lparr>passedHuman := h\<rparr>)) = validatorIn (copyResult w r)"
  by (simp_all add: validatorIn_def copyResult_def)

lemma validatorFnWrapper_cases:
  assumes "validatorFnWrapper w env nm k r = Inr vr"
  shows "(\<exists>b. callValidator w nm k (validatorIn r) = Returned b
            \<and> vr = r\<lparr>passedValidator := Some (Some b), passedValidators := Some []\<rparr>)
       \<or> (\<exists>e. callValidator w nm k (validatorIn r) = Raised e
            \<and> vr = r\<lparr>validatorException := True\<rparr>)"
  using assms
  by (auto simp: validatorFnWrapper_def functionTimeout_def validatorBody_def
           split: outcome.splits if_splits)

lemma runValidators_fields:
  assumes "runValidators w env k vs r = Inr r'"
  shows "input r' = input r \<and> output_list r' = output_list r
       \<and> expectedOutput r' = expectedOutput r \<and> exception r' = exception r
       \<and> timeout r' = timeout r \<and> passedImplicit r' = passedImplicit r
       \<and> passedHuman r' = passedHuman r \<and> passedValidator r' = passedValidator r
       \<and> pinned r' = pinned r"
  using assms
proof (induction vs arbitrary: r)
  case Nil
  then show ?case by simp
next
  case (Cons nm vs)
  from Cons.prems obtain vr where
    step: "runValidators w env k vs
            (r\<lparr>category := categorizeResult r env,
               passedValidators :=
                 Some ((case passedValidators r of Some l \<Rightarrow> l | None \<Rightarrow> [])
                       @ [property_of vr]),
               validatorException := validatorException vr\<rparr>) = Inr r'"
    by (auto split: sum.splits)
  from Cons.IH [OF step] show ?case by simp
qed

lemma runValidators_exception:
  assumes "runValidators w env k vs r = Inr r'"
    and "validatorException r
         \<or> (\<exists>nm\<in>set vs. \<exists>e. callValidator w nm k (validatorIn (copyResult w r)) = Raised e)"
  shows "validatorException r'"
  using assms
proof (induction vs arbitrary: r)
  case Nil
  then show ?case by simp
next
  case (Cons nm vs)
  let ?c = "copyResult w (r\<lparr>category := categorizeResult r env\<rparr>)"
  from Cons.prems(1) obtain vr where
    wrap: "validatorFnWrapper w env nm k ?c = Inr vr"
    and step: "runValidators w env k vs
            (r\<lparr>category := categorizeResult r env,
               passedValidators :=
                 Some ((case passedValidators r of Some l \<Rightarrow> l | None \<Rightarrow> [])
                       @ [property_of vr]),
               validatorException := validatorException vr\<rparr>) = Inr r'"
    by (auto split: sum.splits)
  have "validatorException vr
        \<or> (\<exists>nm\<in>set vs. \<exists>e. callValidator w nm k (validatorIn (copyResult w r)) = Raised e)"
  proof (cases "validatorException r")
    case True
    with validatorFnWrapper_cases [OF wrap] show ?thesis
      by (auto simp: copyResult_def)
  next
    case False
    with Cons.prems(2) have
      "(\<exists>e. callValidator w nm k (validatorIn (copyResult w r)) = Raised e)
       \<or> (\<exists>nm\<in>set vs. \<exists>e. callValidator w nm k (validatorIn (copyResult w r)) = Raised e)"
      by auto
    with validatorFnWrapper_cases [OF wrap] show ?thesis
      by auto
  qed
  with Cons.IH [OF step] show ?case by simp
qed

lemma validatorStep_fields:
  assumes "validatorStep w env k r = Inr r'"
  shows "input r' = input r \<and> output_list r' = output_list r
       \<and> expectedOutput r' = expectedOutput r \<and> exception r' = exception r
       \<and> timeout r' = timeout r \<and> passedImplicit r' = passedImplicit r
       \<and> passedHuman r' = passedHuman r \<and> pinned r' = pinned r"
  using assms
  by (auto simp: validatorStep_def split: if_splits sum.splits dest!: runValidators_fields)

lemma validatorStep_absent:
  assumes "validatorStep w env k r = Inr r'" and "passedValidator r' = None"
  shows "r' = r"
  using assms by (auto simp: validatorStep_def split: if_splits sum.splits)

lemma validatorStep_exception:
  assumes "validatorStep w env k r = Inr r'"
    and "useProperty (options env)" and "nm \<in> set (validators env)"
    and "callValidator w nm k (validatorIn (copyResult w r)) = Raised e"
  shows "validatorException r'"
proof -
  from assms(2,3) have "validators env \<noteq> [] \<and> useProperty (options env)" by auto
  with assms(1) obtain r2 where
    run: "runValidators w env k (validators env) (r\<lparr>passedValidators := Some []\<rparr>) = Inr r2"
    and r': "r' = r2\<lparr>passedValidator :=
                      Some (foldl jsAnd (Some True)
                              (case passedValidators r2 of Some l \<Rightarrow> l | None \<Rightarrow> []))\<rparr>"
    by (auto simp: validatorStep_def split: sum.splits)
  from assms(3,4) have "\<exists>nm\<in>set (validators env). \<exists>e.
      callValidator w nm k (validatorIn (copyResult w (r\<lparr>passedValidators := Some []\<rparr>))) = Raised e"
    by auto
  with runValidators_exception [OF run] have "validatorException r2" by blast
  with r' show ?thesis by simp
qed

lemma runTest_cases:
  assumes "runTest w env fn k r0 = Inr r"
  obtains r1 r2 where "callFunction w env (fn k) r0 = Inr r1"
    and "validatorStep w env k (humanStep w env (implicitStep env r1)) = Inr r2"
    and "r = r2\<lparr>category := categorizeResult r2 env\<rparr>"
  using assms by (auto simp: runTest_def split: sum.splits)


lemma fuzz_loop_end:
  assumes "fuzz_loop w env fn s = Some y"
    and "I s"
    and "\<And>s s'. I s \<Longrightarrow> iteration w env fn s = Inr s' \<Longrightarrow> I (s'\<lparr>iter := Suc (iter s)\<rparr>)"
  shows "\<exists>sf. I sf
          \<and> ((\<exists>reason. checkStopCondition (clock w (Suc (iter sf))) env (inputsGenerated sf)
                  (currentDupeCount sf) (totalDupeCount sf) (failureCount sf) (clock w 0)
                = Some reason \<and> y = Inr (finalResults reason sf))
             \<or> (\<exists>e. checkStopCondition (clock w (Suc (iter sf))) env (inputsGenerated sf)
                  (currentDupeCount sf) (totalDupeCount sf) (failureCount sf) (clock w 0)
                = None \<and> iteration w env fn sf = Inl e \<and> y = Inl (Uncaught e)))"
proof -
  define Q where "Q = (\<lambda>(sf::LoopState) y.
      (\<exists>reason. checkStopCondition (clock w (Suc (iter sf))) env (inputsGenerated sf)
                  (currentDupeCount sf) (totalDupeCount sf) (failureCount sf) (clock w 0)
                = Some reason \<and> y = Inr (finalResults reason sf))
      \<or> (\<exists>e. checkStopCondition (clock w (Suc (iter sf))) env (inputsGenerated sf)
                  (currentDupeCount sf) (totalDupeCount sf) (failureCount sf) (clock w 0)
                = None \<and> iteration w env fn sf = Inl e \<and> y = Inl (Uncaught e)))"
  define P where "P = (\<lambda>(w'::World) (env'::FuzzEnv) fn' (s'::LoopState) y'.
      w' = w \<longrightarrow> env' = env \<longrightarrow> fn' = fn \<longrightarrow> I s' \<longrightarrow> (\<exists>sf. I sf \<and> Q sf y'))"
  have "P w env fn s y"
  proof (rule fuzz_loop.raw_induct [where P = P, OF _ assms(1)])
    fix loop w' env' fn' s' y'
    assume IH: "\<And>w env fn s y. loop w env fn s = Some y \<Longrightarrow> P w env fn s y"
      and body: "(case checkStopCondition (clock w' (Suc (iter s'))) env' (inputsGenerated s')
             (currentDupeCount s') (totalDupeCount s') (failureCount s') (clock w' 0) of
        None \<Rightarrow>
          (case iteration w' env' fn' s' of
             Inl e \<Rightarrow> Some (Inl (Uncaught e))
           | Inr s'' \<Rightarrow> loop w' env' fn' (s''\<lparr>iter := Suc (iter s')\<rparr>))
      | Some stopCondition \<Rightarrow> Some (Inr (finalResults stopCondition s'))) = Some y'"
    show "P w' env' fn' s' y'"
      unfolding P_def
    proof (intro impI)
      assume eq: "w' = w" "env' = env" "fn' = fn" and inv: "I s'"
      show "\<exists>sf. I sf \<and> Q sf y'"
      proof (cases "checkStopCondition (clock w (Suc (iter s'))) env (inputsGenerated s')
             (currentDupeCount s') (totalDupeCount s') (failureCount s') (clock w 0)")
        case (Some reason)
        with body eq have "y' = Inr (finalResults reason s')" by simp
        with Some inv show ?thesis by (auto simp: Q_def)
      next
        case None
        show ?thesis
        proof (cases "iteration w env fn s'")
          case (Inl e)
          with None body eq have "y' = Inl (Uncaught e)" by simp
          with None Inl inv show ?thesis by (auto simp: Q_def)
        next
          case (Inr s'')
          with None body eq have "loop w env fn (s''\<lparr>iter := Suc (iter s')\<rparr>) = Some y'"
            by simp
          from IH [OF this] assms(3) [OF inv Inr] show ?thesis by (simp add: P_def)
        qed
      qed
    qed
  qed
  with assms(2) show ?thesis by (simp add: P_def Q_def)
qed

lemma fuzz_loop_invariant:
  assumes "fuzz_loop w env fn s = Some (Inr res)"
    and "I s"
    and "\<And>s s'. I s \<Longrightarrow> iteration w env fn s = Inr s' \<Longrightarrow> I (s'\<lparr>iter := Suc (iter s)\<rparr>)"
  shows "\<exists>sf. I sf \<and> res_results res = results sf
            \<and> res_inputsGenerated res = inputsGenerated sf
            \<and> res_dupesGenerated res = totalDupeCount sf
            \<and> res_inputsSaved res = savedCount sf
            \<and> checkStopCondition (clock w (Suc (iter sf))) env (inputsGenerated sf)
                 (currentDupeCount sf) (totalDupeCount sf) (failureCount sf) (clock w 0)
               = Some (stopReason res)"
  using fuzz_loop_end [of w env fn s "Inr res" I, OF assms]
  by (auto simp: finalResults_def)

lemma fuzz_cases:
  assumes "fuzz w env pinned_tests = Some (Inr res)"
  obtains fn where "isOptionValid (options env)" and "modl w (fnName env) = Some (Function fn)"
    and "fuzz_loop w env fn (initialState pinned_tests) = Some (Inr res)"
  using assms by (auto simp: fuzz_def split: if_splits option.splits member.splits)

lemma fuzz_results:
  assumes "fuzz w env pinned_tests = Some (Inr res)"
    and "\<And>fn k s0 r. runTest w env fn k (fst (takeInput w env s0)) = Inr r \<Longrightarrow> P r"
  shows "\<forall>r\<in>set (res_results res). P r"
proof -
  from assms(1) obtain fn where
    loop: "fuzz_loop w env fn (initialState pinned_tests) = Some (Inr res)"
    by (rule fuzz_cases)
  have init: "\<forall>r\<in>set (results (initialState pinned_tests)). P r"
    by (simp add: initialState_def)
  have step: "\<forall>r\<in>set (results (s'\<lparr>iter := Suc (iter s)\<rparr>)). P r"
    if "\<forall>r\<in>set (results s). P r" and "iteration w env fn s = Inr s'" for s s'
    using iteration_results [OF that(2)] that(1) assms(2) [of fn "iter s" s] by auto
  from fuzz_loop_invariant [of w env fn _ res "\<lambda>s. \<forall>r\<in>set (results s). P r", OF loop init step]
  show ?thesis by auto
qed

lemma runTest_outcome:
  assumes "runTest w env fn k r0 = Inr r"
    and "output_list r0 = []" and "\<not> exception r0" and "\<not> timeout r0"
  shows "\<not> (exception r \<and> timeout r)"
    and "output_list r = [] \<longleftrightarrow> exception r \<or> timeout r"
    and "\<not> (exception r \<or> timeout r) \<Longrightarrow>
           \<exists>v. output_list r = [\<lparr>name = ''0'', offset = 0, ioValue = v,
                                  isTimeout = None, isException = None\<rparr>]"
proof -
  from assms(1) obtain r1 r2 where c: "callFunction w env (fn k) r0 = Inr r1"
    and v: "validatorStep w env k (humanStep w env (implicitStep env r1)) = Inr r2"
    and r: "r = r2\<lparr>category := categorizeResult r2 env\<rparr>"
    by (rule runTest_cases)
  from validatorStep_fields [OF v] r have same:
    "output_list r = output_list r1" "exception r = exception r1" "timeout r = timeout r1"
    by simp_all
  from callFunction_cases [OF c] assms(2-4) show "\<not> (exception r \<and> timeout r)"
    unfolding same by auto
  from callFunction_cases [OF c] assms(2-4) show "output_list r = [] \<longleftrightarrow> exception r \<or> timeout r"
    unfolding same by auto
  assume "\<not> (exception r \<or> timeout r)"
  with callFunction_cases [OF c] assms(2-4)
  show "\<exists>v. output_list r = [\<lparr>name = ''0'', offset = 0, ioValue = v,
                                  isTimeout = None, isException = None\<rparr>]"
    unfolding same by auto
qed

lemma runTest_implicit:
  assumes "runTest w env fn k r0 = Inr r" and "useImplicit (options env)"
  shows "exception r \<or> timeout r \<Longrightarrow> \<not> passedImplicit r"
    and "isVoid env \<Longrightarrow> \<exists>e\<in>set (output_list r). ioValue e \<noteq> JUndefined \<Longrightarrow> \<not> passedImplicit r"
proof -
  from assms(1) obtain r1 r2 where c: "callFunction w env (fn k) r0 = Inr r1"
    and v: "validatorStep w env k (humanStep w env (implicitStep env r1)) = Inr r2"
    and r: "r = r2\<lparr>category := categorizeResult r2 env\<rparr>"
    by (rule runTest_cases)
  from validatorStep_fields [OF v] r have same:
    "output_list r = output_list r1" "exception r = exception r1" "timeout r = timeout r1"
    "passedImplicit r = passedImplicit (implicitStep env r1)"
    by simp_all
  show "exception r \<or> timeout r \<Longrightarrow> \<not> passedImplicit r"
    unfolding same using assms(2) by (auto simp: implicitStep_def)
  show "isVoid env \<Longrightarrow> \<exists>e\<in>set (output_list r). ioValue e \<noteq> JUndefined \<Longrightarrow> \<not> passedImplicit r"
    unfolding same using assms(2) by (auto simp: implicitStep_def list_ex_iff)
qed

lemma runTest_validator_exception:
  assumes "runTest w env fn k r0 = Inr r"
    and "useProperty (options env)" and "nm \<in> set (validators env)"
    and "callValidator w nm k (validatorIn (copyResult w r)) = Raised e"
  shows "validatorException r \<and> category r = failure"
proof -
  from assms(1) obtain r1 r2 where c: "callFunction w env (fn k) r0 = Inr r1"
    and v: "validatorStep w env k (humanStep w env (implicitStep env r1)) = Inr r2"
    and r: "r = r2\<lparr>category := categorizeResult r2 env\<rparr>"
    by (rule runTest_cases)
  from validatorStep_fields [OF v] have
    "validatorIn (copyResult w r2)
       = validatorIn (copyResult w (humanStep w env (implicitStep env r1)))"
    by (simp add: validatorIn_def copyResult_def)
  with assms(4) r have
    "callValidator w nm k (validatorIn (copyResult w (humanStep w env (implicitStep env r1))))
       = Raised e"
    by simp
  from validatorStep_exception [OF v assms(2,3) this] have "validatorException r2" .
  with r show ?thesis by (simp add: categorizeResult_def)
qed

lemma runTest_no_oracle:
  assumes "runTest w env fn k r0 = Inr r"
    and "\<not> useImplicit (options env)"
    and "passedImplicit r0" and "passedHuman r0 = None" and "\<not> validatorException r0"
    and "expectedOutput r = None" and "passedValidator r = None"
  shows "category r = ok"
proof -
  from assms(1) obtain r1 r2 where c: "callFunction w env (fn k) r0 = Inr r1"
    and v: "validatorStep w env k (humanStep w env (implicitStep env r1)) = Inr r2"
    and r: "r = r2\<lparr>category := categorizeResult r2 env\<rparr>"
    by (rule runTest_cases)
  from r assms(7) have "passedValidator r2 = None" by simp
  from validatorStep_absent [OF v this]
  have r2: "r2 = humanStep w env (implicitStep env r1)" .
  from callFunction_cases [OF c] assms(3-5)
  have r1: "passedImplicit r1" "passedHuman r1 = None" "\<not> validatorException r1"
    by auto
  from r r2 assms(6) have "expectedOutput r1 = None" by simp
  with r1 assms(2) have "passedImplicit r2" "passedHuman r2 = None" "\<not> validatorException r2"
    unfolding r2 by (simp_all add: humanStep_def implicitStep_def)
  with \<open>passedValidator r2 = None\<close> r show ?thesis
    by (simp add: categorizeResult_def human_of_def property_of_def implicit_of_def)
qed


subsection \<open>Runs that no exception leaves\<close>

lemma isTimeoutError_object: "isObject e \<Longrightarrow> \<exists>t. isTimeoutError e = Inr t"
  by (cases e) auto

lemma callFunction_total:
  assumes "\<forall>args e. f args = Raised e \<longrightarrow> isObject e"
  shows "\<exists>r1. callFunction w env f r0 = Inr r1"
proof (cases "validTimeout (fnTimeout (options env))")
  case False
  then show ?thesis
    by (simp add: callFunction_def fnWrapper_def functionTimeout_def rangeError_def)
next
  case True
  show ?thesis
  proof (cases "f (map ioValue (copyElements w (input r0)))")
    case (Returned v)
    with True show ?thesis by (simp add: callFunction_def fnWrapper_def functionTimeout_def)
  next
    case (Raised e)
    with assms have "isObject e" by blast
    from isTimeoutError_object [OF this] Raised True show ?thesis
      by (auto simp: callFunction_def fnWrapper_def functionTimeout_def)
  next
    case TimedOut
    with True show ?thesis
      by (simp add: callFunction_def fnWrapper_def functionTimeout_def timeoutError_def)
  qed
qed

lemma validatorFnWrapper_total:
  assumes "\<forall>k r. callValidator w nm k r \<noteq> TimedOut
           \<and> callValidator w nm k r \<noteq> Raised JNull
           \<and> callValidator w nm k r \<noteq> Raised JUndefined"
    and "validTimeout (fnTimeout (options env))"
  shows "\<exists>vr. validatorFnWrapper w env nm k r = Inr vr"
proof (cases "callValidator w nm k (validatorIn r)")
  case (Returned b)
  with assms(2) show ?thesis
    by (simp add: validatorFnWrapper_def functionTimeout_def validatorBody_def)
next
  case (Raised e)
  with assms(1) have "e \<noteq> JNull" "e \<noteq> JUndefined" by metis+
  with Raised assms(2) show ?thesis
    by (simp add: validatorFnWrapper_def functionTimeout_def validatorBody_def)
next
  case TimedOut
  with assms(1) show ?thesis by metis
qed

lemma runValidators_total:
  assumes "\<forall>nm\<in>set vs. \<forall>k r. callValidator w nm k r \<noteq> TimedOut
           \<and> callValidator w nm k r \<noteq> Raised JNull
           \<and> callValidator w nm k r \<noteq> Raised JUndefined"
    and "validTimeout (fnTimeout (options env))"
  shows "\<exists>r'. runValidators w env k vs r = Inr r'"
  using assms(1)
proof (induction vs arbitrary: r)
  case Nil
  then show ?case by simp
next
  case (Cons nm vs)
  from Cons.prems have "\<forall>k r. callValidator w nm k r \<noteq> TimedOut
           \<and> callValidator w nm k r \<noteq> Raised JNull
           \<and> callValidator w nm k r \<noteq> Raised JUndefined" by simp
  from validatorFnWrapper_total [OF this assms(2)]
  obtain vr where "validatorFnWrapper w env nm k
             (copyResult w (r\<lparr>category := categorizeResult r env\<rparr>)) = Inr vr"
    by blast
  moreover from Cons.IH Cons.prems have "\<And>r. \<exists>r'. runValidators w env k vs r = Inr r'"
    by simp
  ultimately show ?case by simp
qed

lemma validatorStep_total:
  assumes "recovers w env fn"
  shows "\<exists>r'. validatorStep w env k r = Inr r'"
proof (cases "validators env \<noteq> [] \<and> useProperty (options env)")
  case False
  then show ?thesis by (auto simp: validatorStep_def)
next
  case True
  with assms have ok: "\<forall>nm\<in>set (validators env). \<forall>k r. callValidator w nm k r \<noteq> TimedOut
           \<and> callValidator w nm k r \<noteq> Raised JNull
           \<and> callValidator w nm k r \<noteq> Raised JUndefined"
    and t: "validTimeout (fnTimeout (options env))"
    by (auto simp: recovers_def)
  from runValidators_total [OF ok t] obtain r' where
    "runValidators w env k (validators env) (r\<lparr>passedValidators := Some []\<rparr>) = Inr r'"
    by blast
  with True show ?thesis by (simp add: validatorStep_def)
qed

lemma runTest_total:
  assumes "recovers w env fn"
  shows "\<exists>r. runTest w env fn k r0 = Inr r"
proof -
  from assms have "\<forall>args e. fn k args = Raised e \<longrightarrow> isObject e"
    by (simp add: recovers_def)
  from callFunction_total [OF this] obtain r1 where c: "callFunction w env (fn k) r0 = Inr r1"
    by blast
  from validatorStep_total [OF assms] obtain r2 where
    "validatorStep w env k (humanStep w env (implicitStep env r1)) = Inr r2" by blast
  with c show ?thesis by (simp add: runTest_def)
qed

lemma iteration_total:
  assumes "recovers w env fn"
  shows "\<exists>s'. iteration w env fn s = Inr s'"
proof -
  obtain r0 s1 where t: "takeInput w env s = (r0, s1)" by (cases "takeInput w env s")
  from runTest_total [OF assms] obtain r where "runTest w env fn (iter s) r0 = Inr r"
    by blast
  with t show ?thesis by (simp add: iteration_def Let_def)
qed


text \<open>
  The loop ends when each iteration that the stop check lets through descends in a
  well-founded relation.
\<close>

lemma fuzz_loop_returns:
  assumes "wf R"
    and "\<And>s s'. checkStopCondition (clock w (Suc (iter s))) env (inputsGenerated s)
                 (currentDupeCount s) (totalDupeCount s) (failureCount s) (clock w 0) = None
           \<Longrightarrow> iteration w env fn s = Inr s' \<Longrightarrow> (s'\<lparr>iter := Suc (iter s)\<rparr>, s) \<in> R"
    and "recovers w env fn"
  shows "\<exists>res. fuzz_loop w env fn s = Some (Inr res)"
  using assms(1)
proof (induction s rule: wf_induct_rule)
  case (less s)
  show ?case
  proof (cases "checkStopCondition (clock w (Suc (iter s))) env (inputsGenerated s)
             (currentDupeCount s) (totalDupeCount s) (failureCount s) (clock w 0)")
    case (Some reason)
    then show ?thesis by (simp add: fuzz_loop.simps [of w env fn s])
  next
    case None
    from iteration_total [OF assms(3)] obtain s' where it: "iteration w env fn s = Inr s'"
      by blast
    from less [OF assms(2) [OF None it]] None it show ?thesis
      by (simp add: fuzz_loop.simps [of w env fn s])
  qed
qed


text \<open>
  The loop never ends when an invariant keeps every stop condition false and every
  iteration succeeds.
\<close>

lemma fuzz_loop_never_ends:
  assumes "I s"
    and "\<And>s s'. I s \<Longrightarrow> iteration w env fn s = Inr s' \<Longrightarrow> I (s'\<lparr>iter := Suc (iter s)\<rparr>)"
    and "\<And>s. I s \<Longrightarrow> checkStopCondition (clock w (Suc (iter s))) env (inputsGenerated s)
                 (currentDupeCount s) (totalDupeCount s) (failureCount s) (clock w 0) = None"
    and "recovers w env fn"
  shows "fuzz_loop w env fn s = None"
proof (cases "fuzz_loop w env fn s")
  case None
  then show ?thesis .
next
  case (Some y)
  from fuzz_loop_end [of w env fn s y I, OF Some assms(1,2)]
  obtain sf where sf: "I sf" and
    "(\<exists>reason. checkStopCondition (clock w (Suc (iter sf))) env (inputsGenerated sf)
                  (currentDupeCount sf) (totalDupeCount sf) (failureCount sf) (clock w 0)
                = Some reason)
     \<or> (\<exists>e. iteration w env fn sf = Inl e)"
    by blast
  with assms(3) [OF sf] iteration_total [OF assms(4), of sf] show ?thesis by auto
qed

subsection \<open>Pinned tests\<close>

lemma takeInput_pinned:
  assumes "pinnedTests s = ts @ [t]" and "takeInput w env s = (r0, s1)"
  shows "input r0 = input t" "pinned r0 = pinned t" "expectedOutput r0 = expectedOutput t"
    "pinnedTests s1 = ts" "inputsGenerated s1 = inputsGenerated s"
    "savedCount s1 = savedCount s + 1"
  using assms by (auto simp: takeInput_def initialResult_def Let_def)

lemma takeInput_generated:
  assumes "pinnedTests s = []" and "takeInput w env s = (r0, s1)"
  shows "input r0 = generateInput w env (nat (inputsGenerated s))"
    "pinnedTests s1 = []" "inputsGenerated s1 = inputsGenerated s + 1"
    "savedCount s1 = savedCount s"
  using assms by (auto simp: takeInput_def initialResult_def Let_def)

lemma iteration_keeps:
  assumes "iteration w env fn s = Inr s'" and "takeInput w env s = (r0, s1)"
  shows "pinnedTests s' = pinnedTests s1" "inputsGenerated s' = inputsGenerated s1"
    "savedCount s' = savedCount s1"
  using assms
  by (auto simp: iteration_def storeResult_def Let_def split: if_splits sum.splits)

lemma iteration_pinned:
  assumes "iteration w env fn s = Inr s'" and "pinnedTests s = ts @ [t]"
  shows "input (fst (takeInput w env s)) = input t \<and> pinnedTests s' = ts
       \<and> inputsGenerated s' = inputsGenerated s \<and> savedCount s' = savedCount s + 1"
proof -
  obtain r0 s1 where t: "takeInput w env s = (r0, s1)" by (cases "takeInput w env s")
  from takeInput_pinned [OF assms(2) t] iteration_keeps [OF assms(1) t] t
  show ?thesis by simp
qed

lemma iteration_generated:
  assumes "iteration w env fn s = Inr s'" and "pinnedTests s = []"
  shows "pinnedTests s' = [] \<and> inputsGenerated s' = inputsGenerated s + 1
       \<and> savedCount s' = savedCount s"
proof -
  obtain r0 s1 where t: "takeInput w env s = (r0, s1)" by (cases "takeInput w env s")
  from takeInput_generated [OF assms(2) t] iteration_keeps [OF assms(1) t]
  show ?thesis by simp
qed

lemma pinned_invariant:
  assumes "iteration w env fn s = Inr s'"
    and "savedCount s + int (length (pinnedTests s)) = n \<and> 0 \<le> inputsGenerated s
         \<and> (inputsGenerated s \<noteq> 0 \<longrightarrow> pinnedTests s = [])"
  shows "savedCount s' + int (length (pinnedTests s')) = n \<and> 0 \<le> inputsGenerated s'
         \<and> (inputsGenerated s' \<noteq> 0 \<longrightarrow> pinnedTests s' = [])"
proof (cases "pinnedTests s" rule: rev_cases)
  case Nil
  from iteration_generated [OF assms(1) Nil] assms(2) Nil show ?thesis by simp
next
  case (snoc ts t)
  from iteration_pinned [OF assms(1) snoc] assms(2) snoc show ?thesis by auto
qed

lemma fuzz_pinned_counts:
  assumes "fuzz w env pinned_tests = Some (Inr res)"
  shows "res_inputsSaved res \<le> int (length pinned_tests)
       \<and> (res_inputsGenerated res \<noteq> 0 \<longrightarrow> res_inputsSaved res = int (length pinned_tests))"
proof -
  define I where "I = (\<lambda>s::LoopState. savedCount s + int (length (pinnedTests s)) = int (length pinned_tests)
         \<and> 0 \<le> inputsGenerated s \<and> (inputsGenerated s \<noteq> 0 \<longrightarrow> pinnedTests s = []))"
  from assms(1) obtain fn where
    loop: "fuzz_loop w env fn (initialState pinned_tests) = Some (Inr res)"
    by (rule fuzz_cases)
  have init: "I (initialState pinned_tests)" by (simp add: I_def initialState_def)
  have step: "I (s'\<lparr>iter := Suc (iter s)\<rparr>)" if "I s" and "iteration w env fn s = Inr s'" for s s'
    using pinned_invariant [OF that(2), of "int (length pinned_tests)"] that(1)
    by (simp add: I_def)
  from fuzz_loop_invariant [OF loop init step]
  obtain sf where "I sf" "res_inputsGenerated res = inputsGenerated sf"
    "res_inputsSaved res = savedCount sf" by blast
  then show ?thesis by (auto simp: I_def)
qed

subsection \<open>Duplicates\<close>

lemma iteration_duplicate:
  assumes "takeInput w env s = (result, s1)"
    and "allInputs s (stringify w (input result)) \<noteq> None"
  shows "iteration w env fn s =
           Inr (s1\<lparr>currentDupeCount := currentDupeCount s + 1,
                   totalDupeCount := totalDupeCount s + 1\<rparr>)"
  using assms takeInput_unchanged [OF assms(1)]
  by (simp add: iteration_def Let_def)

lemma runTest_input:
  assumes "runTest w env fn k r0 = Inr r"
  shows "input r = input r0"
proof -
  from assms obtain r1 r2 where c: "callFunction w env (fn k) r0 = Inr r1"
    and v: "validatorStep w env k (humanStep w env (implicitStep env r1)) = Inr r2"
    and r: "r = r2\<lparr>category := categorizeResult r2 env\<rparr>"
    by (rule runTest_cases)
  from callFunction_cases [OF c] have "input r1 = input r0" by auto
  with validatorStep_fields [OF v] r show ?thesis by simp
qed

lemma iteration_not_duplicate:
  assumes "takeInput w env s = (result, s1)"
    and "allInputs s (stringify w (input result)) = None"
    and "iteration w env fn s = Inr s'"
  shows "currentDupeCount s' = 0" "totalDupeCount s' = totalDupeCount s"
    "calls s' = calls s @ [input result]"
    "allInputs s' = (if argDefs env \<noteq> []
                     then (allInputs s)(stringify w (input result) \<mapsto> True) else allInputs s)"
    "results s' = results s \<or> (\<exists>r. input r = input result \<and> results s' = results s @ [r])"
proof -
  from assms takeInput_unchanged [OF assms(1)] obtain r where
    run: "runTest w env fn (iter s) result = Inr r"
    and s': "s' = storeResult env r
                   (s1\<lparr>currentDupeCount := 0,
                       allInputs := (if argDefs env \<noteq> []
                                     then (allInputs s1)(stringify w (input result) \<mapsto> True)
                                     else allInputs s1),
                       calls := calls s1 @ [input result]\<rparr>)"
    by (auto simp: iteration_def Let_def split: sum.splits)
  from s' takeInput_unchanged [OF assms(1)] show "currentDupeCount s' = 0"
    "totalDupeCount s' = totalDupeCount s" "calls s' = calls s @ [input result]"
    "allInputs s' = (if argDefs env \<noteq> []
                     then (allInputs s)(stringify w (input result) \<mapsto> True) else allInputs s)"
    by (simp_all add: storeResult_def)
  from s' takeInput_unchanged [OF assms(1)] runTest_input [OF run]
  show "results s' = results s \<or> (\<exists>r. input r = input result \<and> results s' = results s @ [r])"
    by (auto simp: storeResult_def)
qed

lemma no_arguments_invariant:
  assumes "argDefs env = []" and "iteration w env fn s = Inr s'"
    and "allInputs s = Map.empty \<and> totalDupeCount s = 0"
  shows "allInputs s' = Map.empty \<and> totalDupeCount s' = 0"
proof -
  obtain r0 s1 where t: "takeInput w env s = (r0, s1)" by (cases "takeInput w env s")
  from assms(3) have "allInputs s (stringify w (input r0)) = None" by simp
  from iteration_not_duplicate(2,4) [OF t this assms(2)] assms(1,3) show ?thesis by simp
qed

lemma distinct_invariant:
  assumes "argDefs env \<noteq> []" and "iteration w env fn s = Inr s'"
    and "distinct (map (\<lambda>r. stringify w (input r)) (results s))
         \<and> (\<forall>r\<in>set (results s). allInputs s (stringify w (input r)) \<noteq> None)"
  shows "distinct (map (\<lambda>r. stringify w (input r)) (results s'))
         \<and> (\<forall>r\<in>set (results s'). allInputs s' (stringify w (input r)) \<noteq> None)"
proof -
  obtain r0 s1 where t: "takeInput w env s = (r0, s1)" by (cases "takeInput w env s")
  show ?thesis
  proof (cases "allInputs s (stringify w (input r0))")
    case None
    let ?h = "stringify w (input r0)"
    from iteration_not_duplicate(4) [OF t None assms(2)] assms(1)
    have seen: "allInputs s' = (allInputs s)(?h \<mapsto> True)" by simp
    have new: "?h \<notin> set (map (\<lambda>r. stringify w (input r)) (results s))"
    proof
      assume "?h \<in> set (map (\<lambda>r. stringify w (input r)) (results s))"
      then obtain r where "r \<in> set (results s)" "stringify w (input r) = ?h" by auto
      with assms(3) have "allInputs s ?h \<noteq> None" by metis
      with None show False by simp
    qed
    from iteration_not_duplicate(5) [OF t None assms(2)] show ?thesis
    proof
      assume "results s' = results s"
      with assms(3) seen show ?thesis by auto
    next
      assume "\<exists>r. input r = input r0 \<and> results s' = results s @ [r]"
      then obtain r where "input r = input r0" "results s' = results s @ [r]" by blast
      with assms(3) seen new show ?thesis by auto
    qed
  next
    case (Some b)
    then have "allInputs s (stringify w (input r0)) \<noteq> None" by simp
    from iteration_duplicate [OF t this, of fn] assms(2) takeInput_unchanged [OF t] assms(3)
    show ?thesis by auto
  qed
qed

lemma fuzz_no_arguments:
  assumes "argDefs env = []" and "fuzz w env pinned_tests = Some (Inr res)"
  shows "res_dupesGenerated res = 0"
proof -
  define I where "I = (\<lambda>s::LoopState. allInputs s = Map.empty \<and> totalDupeCount s = 0)"
  from assms(2) obtain fn where
    loop: "fuzz_loop w env fn (initialState pinned_tests) = Some (Inr res)"
    by (rule fuzz_cases)
  have init: "I (initialState pinned_tests)" by (simp add: I_def initialState_def)
  have step: "I (s'\<lparr>iter := Suc (iter s)\<rparr>)" if "I s" and "iteration w env fn s = Inr s'" for s s'
    using no_arguments_invariant [OF assms(1) that(2)] that(1) by (simp add: I_def)
  from fuzz_loop_invariant [OF loop init step]
  obtain sf where "I sf" "res_dupesGenerated res = totalDupeCount sf" by blast
  then show ?thesis by (simp add: I_def)
qed

lemma fuzz_distinct_results:
  assumes "argDefs env \<noteq> []" and "fuzz w env pinned_tests = Some (Inr res)"
  shows "distinct (map (\<lambda>r. stringify w (input r)) (res_results res))"
proof -
  define I where "I = (\<lambda>s::LoopState. distinct (map (\<lambda>r. stringify w (input r)) (results s))
         \<and> (\<forall>r\<in>set (results s). allInputs s (stringify w (input r)) \<noteq> None))"
  from assms(2) obtain fn where
    loop: "fuzz_loop w env fn (initialState pinned_tests) = Some (Inr res)"
    by (rule fuzz_cases)
  have init: "I (initialState pinned_tests)" by (simp add: I_def initialState_def)
  have step: "I (s'\<lparr>iter := Suc (iter s)\<rparr>)" if "I s" and "iteration w env fn s = Inr s'" for s s'
    using distinct_invariant [OF assms(1) that(2)] that(1) by (simp add: I_def)
  from fuzz_loop_invariant [OF loop init step]
  obtain sf where "I sf" "res_results res = results sf" by blast
  then show ?thesis by (simp add: I_def)
qed

lemma identical_pinned_tests:
  assumes "argDefs env \<noteq> []"
    and "iteration w env fn (initialState [t, t]) = Inr s1"
    and "iteration w env fn (s1\<lparr>iter := 1\<rparr>) = Inr s2"
  shows "calls s2 = [input t] \<and> results s2 = results s1 \<and> length (results s2) \<le> 1
       \<and> savedCount s2 = 2 \<and> totalDupeCount s2 = 1 \<and> currentDupeCount s2 = 1"
proof -
  let ?s0 = "initialState [t, t]"
  obtain r0 s0' where t0: "takeInput w env ?s0 = (r0, s0')" by (cases "takeInput w env ?s0")
  have p0: "pinnedTests ?s0 = [t] @ [t]" by (simp add: initialState_def)
  have fresh: "allInputs ?s0 (stringify w (input r0)) = None" by (simp add: initialState_def)
  from takeInput_pinned [OF p0 t0] iteration_keeps [OF assms(2) t0]
    iteration_not_duplicate [OF t0 fresh assms(2)] assms(1)
  have s1: "pinnedTests s1 = [t]" "savedCount s1 = 1" "totalDupeCount s1 = 0"
    "currentDupeCount s1 = 0" "calls s1 = [input t]" "allInputs s1 = [stringify w (input t) \<mapsto> True]"
    "length (results s1) \<le> 1"
    by (auto simp: initialState_def)
  let ?s1 = "s1\<lparr>iter := 1\<rparr>"
  obtain r1 s1' where t1: "takeInput w env ?s1 = (r1, s1')" by (cases "takeInput w env ?s1")
  from s1 have p1: "pinnedTests ?s1 = [] @ [t]" by simp
  from takeInput_pinned [OF p1 t1] s1
  have dup: "allInputs ?s1 (stringify w (input r1)) \<noteq> None" by simp
  from iteration_duplicate [OF t1 dup, of fn] assms(3) takeInput_pinned [OF p1 t1]
    takeInput_unchanged [OF t1] s1
  show ?thesis by auto
qed

lemma tests_bounded_invariant:
  assumes "argDefs env \<noteq> []" and "finite space"
    and "\<forall>n. stringify w (generateInput w env n) \<in> space"
    and "iteration w env fn s = Inr s'"
    and "inputsGenerated s - totalDupeCount s \<le> int (card (dom (allInputs s) \<inter> space))"
  shows "inputsGenerated s' - totalDupeCount s' \<le> int (card (dom (allInputs s') \<inter> space))"
proof -
  obtain r0 s1 where t: "takeInput w env s = (r0, s1)" by (cases "takeInput w env s")
  let ?h = "stringify w (input r0)"
  note keep = iteration_keeps [OF assms(4) t]
  show ?thesis
  proof (cases "allInputs s ?h")
    case (Some b)
    then have dup: "allInputs s ?h \<noteq> None" by simp
    from iteration_duplicate [OF t dup, of fn] assms(4) takeInput_unchanged [OF t]
    have s': "allInputs s' = allInputs s" "totalDupeCount s' = totalDupeCount s + 1"
      by auto
    have "inputsGenerated s1 \<le> inputsGenerated s + 1"
      using t by (auto simp: takeInput_def Let_def split: if_splits)
    with s' keep assms(5) show ?thesis by simp
  next
    case None
    from iteration_not_duplicate(2,4) [OF t None assms(4)] assms(1)
    have s': "totalDupeCount s' = totalDupeCount s" "allInputs s' = (allInputs s)(?h \<mapsto> True)"
      by simp_all
    have fin: "finite (dom (allInputs s') \<inter> space)" using assms(2) by simp
    show ?thesis
    proof (cases "pinnedTests s" rule: rev_cases)
      case Nil
      from takeInput_generated [OF Nil t] assms(3) have "?h \<in> space" by simp
      moreover from None have "?h \<notin> dom (allInputs s)" by (simp add: domIff)
      ultimately have "dom (allInputs s') \<inter> space = insert ?h (dom (allInputs s) \<inter> space)"
        and "?h \<notin> dom (allInputs s) \<inter> space"
        using s' by auto
      with assms(2) have "card (dom (allInputs s') \<inter> space) = Suc (card (dom (allInputs s) \<inter> space))"
        by simp
      with takeInput_generated [OF Nil t] keep s' assms(5) show ?thesis by simp
    next
      case (snoc ts p)
      have "dom (allInputs s) \<inter> space \<subseteq> dom (allInputs s') \<inter> space"
        using s' by auto
      with fin have "card (dom (allInputs s) \<inter> space) \<le> card (dom (allInputs s') \<inter> space)"
        by (rule card_mono)
      with takeInput_pinned [OF snoc t] keep s' assms(5) show ?thesis by simp
    qed
  qed
qed

subsection \<open>Evaluating one iteration of the concrete run\<close>

lemmas run_defs = iteration_def takeInput_def initialState_def pinnedBool_def boolInput_def
     exampleWorld_def exampleStringify_def initialResult_def runTest_def callFunction_def
     fnWrapper_def functionTimeout_def copyElements_def exampleF_def implicitStep_def
     exampleEnv_def exampleOptions_def humanStep_def validTimeout_def validatorStep_def categorizeResult_def
     human_of_def property_of_def implicit_of_def storeResult_def generateInput_def
     tested_def ioOut_def ioElementObject_def flat_def

subsection \<open>A finite space of inputs\<close>

lemma jsLt_below:
  assumes "jsLt (Finite a) m" and "b \<le> a"
  shows "jsLt (Finite b) m" "\<not> jsGe (Finite b) m"
  using assms by (cases m; simp)+

text \<open>
  When the generated inputs lie in a finite set of serializations, an iteration takes a
  pinned test, or records a serialization of the set that was not yet seen, or counts a
  duplicate.
\<close>

lemma small_space_progress:
  assumes "argDefs env \<noteq> []" and "finite space"
    and "\<forall>n. stringify w (generateInput w env n) \<in> space"
    and "iteration w env fn s = Inr s'"
  shows "length (pinnedTests s') < length (pinnedTests s)
       \<or> (pinnedTests s' = pinnedTests s
          \<and> card (space - dom (allInputs s')) < card (space - dom (allInputs s)))
       \<or> (pinnedTests s' = pinnedTests s \<and> allInputs s' = allInputs s
          \<and> currentDupeCount s' = currentDupeCount s + 1)"
proof (cases "pinnedTests s" rule: rev_cases)
  case (snoc ts t)
  from iteration_pinned [OF assms(4) snoc] snoc show ?thesis by simp
next
  case Nil
  obtain r0 s1 where t: "takeInput w env s = (r0, s1)" by (cases "takeInput w env s")
  let ?h = "stringify w (input r0)"
  from takeInput_generated [OF Nil t] assms(3) have h: "?h \<in> space" by simp
  from iteration_generated [OF assms(4) Nil] Nil have pin: "pinnedTests s' = pinnedTests s"
    by simp
  show ?thesis
  proof (cases "allInputs s ?h")
    case None
    from iteration_not_duplicate(4) [OF t None assms(4)] assms(1)
    have "space - dom (allInputs s') = (space - dom (allInputs s)) - {?h}" by auto
    moreover from None h have "?h \<in> space - dom (allInputs s)" by auto
    moreover from assms(2) have "finite (space - dom (allInputs s))" by simp
    ultimately have "card (space - dom (allInputs s')) < card (space - dom (allInputs s))"
      using card_Diff1_less [of "space - dom (allInputs s)" ?h] by metis
    with pin show ?thesis by simp
  next
    case (Some b)
    then have "allInputs s ?h \<noteq> None" by simp
    from iteration_duplicate [OF t this, of fn] assms(4) takeInput_unchanged [OF t]
    have "allInputs s' = allInputs s" "currentDupeCount s' = currentDupeCount s + 1" by auto
    with pin show ?thesis by simp
  qed
qed

lemma fuzz_loop_small_space:
  assumes "argDefs env \<noteq> []" and "finite space"
    and "\<forall>n. stringify w (generateInput w env n) \<in> space"
    and "maxDupeInputs (options env) = Finite md"
    and "recovers w env fn"
  shows "\<exists>res. fuzz_loop w env fn s = Some (Inr res)"
proof (rule fuzz_loop_returns [OF _ _ assms(5)])
  show "wf (inv_image (less_than <*lex*> less_than <*lex*> less_than)
          (\<lambda>s::LoopState.
             (length (pinnedTests s),
              card (space - dom (allInputs s)),
              nat \<lceil>md - real_of_int (currentDupeCount s)\<rceil>)))"
    by (intro wf_inv_image wf_lex_prod wf_less_than)
next
  fix s s'
  assume stop: "checkStopCondition (clock w (Suc (iter s))) env (inputsGenerated s)
                 (currentDupeCount s) (totalDupeCount s) (failureCount s) (clock w 0) = None"
    and it: "iteration w env fn s = Inr s'"
  from stop assms(4)
  have dupes: "real_of_int (currentDupeCount s) < md"
    by (auto simp: checkStopCondition_def split: if_splits)
  from small_space_progress [OF assms(1-3) it] dupes
  show "(s'\<lparr>iter := Suc (iter s)\<rparr>, s)
        \<in> inv_image (less_than <*lex*> less_than <*lex*> less_than)
          (\<lambda>s::LoopState.
             (length (pinnedTests s),
              card (space - dom (allInputs s)),
              nat \<lceil>md - real_of_int (currentDupeCount s)\<rceil>))"
    by (auto simp: nat_less_iff) linarith+
qed

text \<open>
  With \<open>maxDupeInputs\<close> infinite, \<open>maxFailures\<close> 0 and a clock that never reaches the suite
  timeout, no stop condition ever holds on such a space: the loop does not end.
\<close>

lemma fuzz_loop_small_space_never_ends:
  assumes "argDefs env \<noteq> []" and "finite space"
    and "\<forall>n. stringify w (generateInput w env n) \<in> space"
    and "jsLt (Finite (real (card space))) (maxTests (options env))"
    and "maxDupeInputs (options env) = PosInfinity"
    and "maxFailures (options env) = Finite 0"
    and "\<forall>k. \<not> jsGe (num (clock w k - clock w 0)) (suiteTimeout (options env))"
    and "recovers w env fn"
  shows "fuzz_loop w env fn (initialState pinned_tests) = None"
proof -
  define I where "I = (\<lambda>s::LoopState.
    inputsGenerated s - totalDupeCount s \<le> int (card (dom (allInputs s) \<inter> space)))"
  have init: "I (initialState pinned_tests)" by (simp add: I_def initialState_def)
  have step: "I (s'\<lparr>iter := Suc (iter s)\<rparr>)" if "I s" and "iteration w env fn s = Inr s'" for s s'
    using tests_bounded_invariant [OF assms(1-3) that(2)] that(1) by (simp add: I_def)
  have none: "checkStopCondition (clock w (Suc (iter s))) env (inputsGenerated s)
                 (currentDupeCount s) (totalDupeCount s) (failureCount s) (clock w 0) = None"
    if "I s" for s
  proof -
    have "card (dom (allInputs s) \<inter> space) \<le> card space"
      using assms(2) by (intro card_mono) auto
    with that have "real_of_int (inputsGenerated s - totalDupeCount s) \<le> real (card space)"
      unfolding I_def by linarith
    from jsLt_below(2) [OF assms(4) this] assms(5,6) spec [OF assms(7), of "Suc (iter s)"]
    show ?thesis by (simp add: checkStopCondition_def)
  qed
  from fuzz_loop_never_ends [of I, OF init step none assms(8)] show ?thesis by simp
qed

section \<open>Classification and stop conditions\<close>

text \<open>
  C1. For every test result in which no validator exception is recorded,
  \<^verbatim>\<open>categorizeResult\<close> gives the category of the decision table: human true and
  property false is \<open>disagree\<close>; human true and property true or undefined is \<open>ok\<close>;
  human false and property true is \<open>disagree\<close>; human false and property false or
  undefined is \<open>exception\<close> if the call threw, else \<open>timeout\<close> if it timed out, else
  \<open>badValue\<close>; human undefined and property true is \<open>ok\<close>; human undefined and property
  false is \<open>badValue\<close>; both undefined is \<open>ok\<close> if the implicit verdict is true and
  otherwise goes by the same outcome-kind rule. The human verdict is the field
  \<open>passedHuman\<close>, the property verdict the value of the field \<open>passedValidator\<close>
  (undefined when the field is absent).
\<close>

theorem categorizeResult_precedence:
  assumes "\<not> validatorException result"
  shows "categorizeResult result env =
           precedenceTable (passedHuman result) (property_of result) (passedImplicit result)
             (exception result) (timeout result)"
proof -
  have human: "human_of result = passedHuman result"
    by (cases "passedHuman result") (simp_all add: human_of_def)
  have implicit: "implicit_of result = passedImplicit result"
    by (simp add: implicit_of_def)
  have kind: "getBadValueType result = byOutcomeKind (exception result) (timeout result)"
    by (simp add: getBadValueType_def byOutcomeKind_def)
  show ?thesis
  proof (cases "passedHuman result")
    case None
    show ?thesis
    proof (cases "property_of result")
      case None
      with \<open>passedHuman result = None\<close> assms show ?thesis
        by (simp add: categorizeResult_def human implicit kind)
    next
      case (Some p)
      then have "passedValidator result = Some (Some p)"
        by (simp add: property_of_def split: option.splits)
      with Some \<open>passedHuman result = None\<close> assms show ?thesis
        by (cases p) (simp_all add: categorizeResult_def human getBadValueTypeProperty_def)
    qed
  next
    case (Some h)
    show ?thesis
    proof (cases "property_of result")
      case None
      with Some assms show ?thesis
        by (cases h) (simp_all add: categorizeResult_def human kind)
    next
      case (Some p)
      with \<open>passedHuman result = Some h\<close> assms show ?thesis
        by (cases h; cases p) (simp_all add: categorizeResult_def human kind)
    qed
  qed
qed


theorem categorizeResult_precedence_witness:
  "categorizeResult (initialResult\<lparr>passedHuman := Some True, passedValidator := Some (Some False)\<rparr>)
     exampleEnv = disagree
   \<and> categorizeResult (initialResult\<lparr>exception := True, passedHuman := Some False,
        passedValidator := Some (Some False)\<rparr>) exampleEnv = exception_cat
   \<and> categorizeResult initialResult exampleEnv = ok"
  using
    categorizeResult_precedence [of "initialResult\<lparr>passedHuman := Some True,
      passedValidator := Some (Some False)\<rparr>" exampleEnv]
    categorizeResult_precedence [of "initialResult\<lparr>exception := True, passedHuman := Some False,
      passedValidator := Some (Some False)\<rparr>" exampleEnv]
    categorizeResult_precedence [of initialResult exampleEnv]
  by (simp add: initialResult_def property_of_def byOutcomeKind_def)

text \<open>
  C3. \<^verbatim>\<open>_checkStopCondition\<close> tests the four stop conditions in a fixed order and the
  first that holds wins: \<open>MAXTIME\<close> when the time elapsed since the start is at least
  \<open>suiteTimeout\<close>; otherwise \<open>MAXTESTS\<close> when \<open>inputsGenerated - totalDupeCount\<close> is at
  least \<open>maxTests\<close>; otherwise \<open>MAXFAILURES\<close> when \<open>maxFailures\<close> is not 0 and
  \<open>failureCount\<close> is at least \<open>maxFailures\<close>; otherwise \<open>MAXDUPES\<close> when
  \<open>currentDupeCount\<close> is at least \<open>maxDupeInputs\<close>; otherwise no stop condition.
  "At least" is the operator \<^verbatim>\<open>>=\<close> of the source, \<open>jsGe\<close>.
\<close>

theorem checkStopCondition_priority:
  fixes now startTime inputsGenerated currentDupeCount totalDupeCount failureCount :: int
  shows
    "(jsGe (num (now - startTime)) (suiteTimeout (options env)) \<longrightarrow>
        checkStopCondition now env inputsGenerated currentDupeCount totalDupeCount failureCount
          startTime = Some MAXTIME)
   \<and> (\<not> jsGe (num (now - startTime)) (suiteTimeout (options env))
        \<and> jsGe (num (inputsGenerated - totalDupeCount)) (maxTests (options env)) \<longrightarrow>
        checkStopCondition now env inputsGenerated currentDupeCount totalDupeCount failureCount
          startTime = Some MAXTESTS)
   \<and> (\<not> jsGe (num (now - startTime)) (suiteTimeout (options env))
        \<and> \<not> jsGe (num (inputsGenerated - totalDupeCount)) (maxTests (options env))
        \<and> maxFailures (options env) \<noteq> Finite 0
        \<and> jsGe (num failureCount) (maxFailures (options env)) \<longrightarrow>
        checkStopCondition now env inputsGenerated currentDupeCount totalDupeCount failureCount
          startTime = Some MAXFAILURES)
   \<and> (\<not> jsGe (num (now - startTime)) (suiteTimeout (options env))
        \<and> \<not> jsGe (num (inputsGenerated - totalDupeCount)) (maxTests (options env))
        \<and> \<not> (maxFailures (options env) \<noteq> Finite 0
              \<and> jsGe (num failureCount) (maxFailures (options env)))
        \<and> jsGe (num currentDupeCount) (maxDupeInputs (options env)) \<longrightarrow>
        checkStopCondition now env inputsGenerated currentDupeCount totalDupeCount failureCount
          startTime = Some MAXDUPES)
   \<and> (\<not> jsGe (num (now - startTime)) (suiteTimeout (options env))
        \<and> \<not> jsGe (num (inputsGenerated - totalDupeCount)) (maxTests (options env))
        \<and> \<not> (maxFailures (options env) \<noteq> Finite 0
              \<and> jsGe (num failureCount) (maxFailures (options env)))
        \<and> \<not> jsGe (num currentDupeCount) (maxDupeInputs (options env)) \<longrightarrow>
        checkStopCondition now env inputsGenerated currentDupeCount totalDupeCount failureCount
          startTime = None)"
  unfolding checkStopCondition_def by simp

theorem checkStopCondition_priority_witness:
  "checkStopCondition 1000 exampleEnv 3 2 0 0 0 = Some MAXTIME
   \<and> checkStopCondition 5 exampleEnv 3 2 0 0 0 = Some MAXTESTS
   \<and> checkStopCondition 5 (exampleEnv\<lparr>options := exampleOptions\<lparr>maxFailures := Finite 1\<rparr>\<rparr>)
        2 2 0 1 0 = Some MAXFAILURES
   \<and> checkStopCondition 5 exampleEnv 2 2 0 1 0 = Some MAXDUPES
   \<and> checkStopCondition 5 exampleEnv 2 1 0 1 0 = None"
  using
    checkStopCondition_priority [where now = 1000 and startTime = 0 and env = exampleEnv
      and inputsGenerated = 3 and totalDupeCount = 0 and failureCount = 0
      and currentDupeCount = 2]
    checkStopCondition_priority [where now = 5 and startTime = 0 and env = exampleEnv
      and inputsGenerated = 3 and totalDupeCount = 0 and failureCount = 0
      and currentDupeCount = 2]
    checkStopCondition_priority [where now = 5 and startTime = 0
      and env = "exampleEnv\<lparr>options := exampleOptions\<lparr>maxFailures := Finite 1\<rparr>\<rparr>"
      and inputsGenerated = 2 and totalDupeCount = 0 and failureCount = 1
      and currentDupeCount = 2]
    checkStopCondition_priority [where now = 5 and startTime = 0 and env = exampleEnv
      and inputsGenerated = 2 and totalDupeCount = 0 and failureCount = 1
      and currentDupeCount = 2]
    checkStopCondition_priority [where now = 5 and startTime = 0 and env = exampleEnv
      and inputsGenerated = 2 and totalDupeCount = 0 and failureCount = 1
      and currentDupeCount = 1]
  by (simp add: exampleEnv_def exampleOptions_def)

section \<open>The oracles\<close>

text \<open>
  C2. \<^verbatim>\<open>implicitOracle(x)\<close> is false exactly when \<open>x\<close> is, or recursively contains
  (arrays element by element, objects value by value), \<^verbatim>\<open>null\<close>, \<^verbatim>\<open>undefined\<close>,
  \<^verbatim>\<open>NaN\<close>, \<^verbatim>\<open>Infinity\<close> or \<^verbatim>\<open>-Infinity\<close>, and true otherwise; it is false on
  \<^verbatim>\<open>{a:1, b:[1,2,NaN]}\<close> and on \<^verbatim>\<open>undefined\<close> and true on \<^verbatim>\<open>{a:1, b:[1,2]}\<close>. In a
  run with \<open>useImplicit\<close>, every stored result of a call that threw or timed out has
  \<open>passedImplicit\<close> false, and so has, for a void function, every stored result whose
  output value is not \<^verbatim>\<open>undefined\<close>.
\<close>

theorem implicitOracle_verdict:
  "implicitOracle x = (\<not> containsDisallowed x)
   \<and> implicitOracle (JObj [(''a'', JNum (Finite 1)),
        (''b'', JArr [JNum (Finite 1), JNum (Finite 2), JNum NaN])]) = False
   \<and> implicitOracle (JObj [(''a'', JNum (Finite 1)),
        (''b'', JArr [JNum (Finite 1), JNum (Finite 2)])]) = True
   \<and> implicitOracle JUndefined = False
   \<and> (fuzz w env pinned_tests = Some (Inr res) \<and> useImplicit (options env) \<and> r \<in> set (res_results res)
        \<longrightarrow> (exception r \<or> timeout r \<longrightarrow> \<not> passedImplicit r)
          \<and> (isVoid env \<and> (\<exists>e\<in>set (output_list r). ioValue e \<noteq> JUndefined)
               \<longrightarrow> \<not> passedImplicit r))"
proof -
  have loop: "(exception r \<or> timeout r \<longrightarrow> \<not> passedImplicit r)
          \<and> (isVoid env \<and> (\<exists>e\<in>set (output_list r). ioValue e \<noteq> JUndefined)
               \<longrightarrow> \<not> passedImplicit r)"
    if run: "fuzz w env pinned_tests = Some (Inr res)" and imp: "useImplicit (options env)"
      and r: "r \<in> set (res_results res)"
  proof -
    have "\<forall>r\<in>set (res_results res).
            (exception r \<or> timeout r \<longrightarrow> \<not> passedImplicit r)
          \<and> (isVoid env \<and> (\<exists>e\<in>set (output_list r). ioValue e \<noteq> JUndefined)
               \<longrightarrow> \<not> passedImplicit r)"
      by (rule fuzz_results [OF run]) (use runTest_implicit [OF _ imp] in blast)
    with r show ?thesis by blast
  qed
  show ?thesis
    using loop by (simp add: implicitOracle_iff flat_def)
qed

theorem implicitOracle_verdict_witness:
  "fuzz exampleWorld throwingEnv [] = Some (Inr (oneTest threw))
   \<and> useImplicit (options throwingEnv) \<and> threw \<in> set (res_results (oneTest threw))
   \<and> exception threw \<and> \<not> passedImplicit threw
   \<and> fuzz exampleWorld voidEnv [] =
       Some (Inr (oneTest ((tested True False)\<lparr>passedImplicit := False, category := badValue\<rparr>)))
   \<and> isVoid voidEnv
   \<and> \<not> passedImplicit ((tested True False)\<lparr>passedImplicit := False, category := badValue\<rparr>)"
proof -
  have run1: "fuzz exampleWorld throwingEnv [] = Some (Inr (oneTest threw))"
    by code_simp
  have run2: "fuzz exampleWorld voidEnv [] =
       Some (Inr (oneTest ((tested True False)\<lparr>passedImplicit := False, category := badValue\<rparr>)))"
    by code_simp
  have opts: "useImplicit (options throwingEnv)" "useImplicit (options voidEnv)" "isVoid voidEnv"
    by (simp_all add: throwingEnv_def voidEnv_def oneTestOptions_def exampleOptions_def)
  from implicitOracle_verdict [of JNull exampleWorld throwingEnv "[]" "oneTest threw" threw]
    implicitOracle_verdict [of JNull exampleWorld voidEnv "[]"
      "oneTest ((tested True False)\<lparr>passedImplicit := False, category := badValue\<rparr>)"
      "(tested True False)\<lparr>passedImplicit := False, category := badValue\<rparr>"]
    run1 run2 opts
  show ?thesis
    by (simp add: oneTest_def threw_def tested_def ioOut_def)
qed

text \<open>
  C5. For every test on which some enabled validator function throws, the final category
  of the test is \<open>failure\<close>, whatever the implicit verdict, the human verdict and the
  verdicts of the other validators are. The validators run when \<open>useProperty\<close> is set;
  the validator \<open>nm\<close> is called on the record built from the copy of the result, whose
  fields are those of the final result \<open>r\<close>. Every stored result of a run that records
  a validator exception has the category \<open>failure\<close>.
\<close>

theorem validator_exception_is_failure:
  "(runTest w env fn k r0 = Inr r \<and> useProperty (options env) \<and> nm \<in> set (validators env)
      \<and> callValidator w nm k (validatorIn (copyResult w r)) = Raised e
      \<longrightarrow> validatorException r \<and> category r = failure)
   \<and> (fuzz w env pinned_tests = Some (Inr res) \<and> r' \<in> set (res_results res) \<and> validatorException r'
      \<longrightarrow> category r' = failure)"
proof -
  have "\<forall>r\<in>set (res_results res). validatorException r \<longrightarrow> category r = failure"
    if run: "fuzz w env pinned_tests = Some (Inr res)"
  proof (rule fuzz_results [OF run])
    fix fn k s0 r
    assume "runTest w env fn k (fst (takeInput w env s0)) = Inr r"
    then show "validatorException r \<longrightarrow> category r = failure"
      by (rule runTest_cases) (simp add: categorizeResult_def)
  qed
  then show ?thesis
    using runTest_validator_exception [of w env fn k r0 r nm e] by blast
qed

theorem validator_exception_is_failure_witness:
  "runTest exampleWorld badValidatorEnv exampleF 0 ((tested True False)\<lparr>output_list := []\<rparr>)
     = Inr validatorThrew
   \<and> useProperty (options badValidatorEnv) \<and> ''fBad'' \<in> set (validators badValidatorEnv)
   \<and> callValidator exampleWorld ''fBad'' 0 (validatorIn (copyResult exampleWorld validatorThrew))
       = Raised errorObject
   \<and> category validatorThrew = failure
   \<and> fuzz exampleWorld badValidatorEnv [] = Some (Inr (oneTest validatorThrew))
   \<and> validatorThrew \<in> set (res_results (oneTest validatorThrew))
   \<and> validatorException validatorThrew"
proof -
  have test: "runTest exampleWorld badValidatorEnv exampleF 0
      ((tested True False)\<lparr>output_list := []\<rparr>) = Inr validatorThrew"
    by code_simp
  have run: "fuzz exampleWorld badValidatorEnv [] = Some (Inr (oneTest validatorThrew))"
    by code_simp
  have hyps: "useProperty (options badValidatorEnv)" "''fBad'' \<in> set (validators badValidatorEnv)"
    "callValidator exampleWorld ''fBad'' 0 (validatorIn (copyResult exampleWorld validatorThrew))
       = Raised errorObject"
    "validatorThrew \<in> set (res_results (oneTest validatorThrew))"
    "validatorException validatorThrew"
    by (simp_all add: badValidatorEnv_def oneTestOptions_def exampleOptions_def exampleWorld_def
          exampleValidator_def oneTest_def validatorThrew_def)
  from validator_exception_is_failure [of exampleWorld badValidatorEnv exampleF 0
      "(tested True False)\<lparr>output_list := []\<rparr>" validatorThrew "''fBad''" errorObject
      "[]" "oneTest validatorThrew" validatorThrew] test run hyps
  show ?thesis by simp
qed

text \<open>
  C8. When \<open>useImplicit\<close> is false and, for a test, no expected output is pinned and no
  validator verdict is produced (the result has no \<open>passedValidator\<close>: no validator was
  run on it), the category of the test is \<open>ok\<close>, also when the call threw an exception
  or timed out.
\<close>

theorem no_oracle_is_ok:
  assumes "fuzz w env pinned_tests = Some (Inr res)" and "\<not> useImplicit (options env)"
    and "r \<in> set (res_results res)"
    and "expectedOutput r = None" and "passedValidator r = None"
  shows "category r = ok"
proof -
  have "\<forall>r\<in>set (res_results res).
          expectedOutput r = None \<and> passedValidator r = None \<longrightarrow> category r = ok"
  proof (rule fuzz_results [OF assms(1)])
    fix fn k s0 r'
    assume run: "runTest w env fn k (fst (takeInput w env s0)) = Inr r'"
    obtain r0 s1 where t: "takeInput w env s0 = (r0, s1)" by (cases "takeInput w env s0")
    from takeInput_fresh [OF t]
    have fresh: "passedImplicit r0" "passedHuman r0 = None" "\<not> validatorException r0"
      by simp_all
    from run t have "runTest w env fn k r0 = Inr r'" by simp
    from runTest_no_oracle [OF this assms(2) fresh]
    show "expectedOutput r' = None \<and> passedValidator r' = None \<longrightarrow> category r' = ok"
      by blast
  qed
  with assms(3-5) show ?thesis by blast
qed

theorem no_oracle_is_ok_witness:
  "fuzz exampleWorld noOracleEnv [] = Some (Inr (oneTest (threw\<lparr>passedImplicit := True, category := ok\<rparr>)))
   \<and> \<not> useImplicit (options noOracleEnv)
   \<and> threw\<lparr>passedImplicit := True, category := ok\<rparr>
       \<in> set (res_results (oneTest (threw\<lparr>passedImplicit := True, category := ok\<rparr>)))
   \<and> expectedOutput (threw\<lparr>passedImplicit := True, category := ok\<rparr>) = None
   \<and> passedValidator (threw\<lparr>passedImplicit := True, category := ok\<rparr>) = None
   \<and> exception (threw\<lparr>passedImplicit := True, category := ok\<rparr>)
   \<and> category (threw\<lparr>passedImplicit := True, category := ok\<rparr>) = ok"
proof -
  have run: "fuzz exampleWorld noOracleEnv [] =
      Some (Inr (oneTest (threw\<lparr>passedImplicit := True, category := ok\<rparr>)))"
    by code_simp
  have hyps: "\<not> useImplicit (options noOracleEnv)"
    "threw\<lparr>passedImplicit := True, category := ok\<rparr>
       \<in> set (res_results (oneTest (threw\<lparr>passedImplicit := True, category := ok\<rparr>)))"
    "expectedOutput (threw\<lparr>passedImplicit := True, category := ok\<rparr>) = None"
    "passedValidator (threw\<lparr>passedImplicit := True, category := ok\<rparr>) = None"
    "exception (threw\<lparr>passedImplicit := True, category := ok\<rparr>)"
    by (simp_all add: noOracleEnv_def oneTestOptions_def exampleOptions_def oneTest_def
          threw_def tested_def)
  from no_oracle_is_ok [OF run hyps(1-4)] run hyps show ?thesis by simp
qed

section \<open>The outcome of a call\<close>

text \<open>
  C10, as the code has it. In every result that a run stores, the flags \<open>exception\<close> and
  \<open>timeout\<close> are never both true, and the output list is empty exactly when the call
  threw or timed out and has exactly one element otherwise. In the record built for a
  validator from (a copy of) the result, the field \<open>out\<close> is the string
  \<^verbatim>\<open>"timeout or exception"\<close> when the call threw or timed out, and is the copied value
  of the one output element otherwise; the fields \<open>exception\<close> and \<open>timeout\<close> are the
  flags of the result.
\<close>

theorem outcome_flags_and_output:
  assumes "fuzz w env pinned_tests = Some (Inr res)" and "r \<in> set (res_results res)"
  shows "\<not> (exception r \<and> timeout r)
       \<and> (output_list r = [] \<longleftrightarrow> exception r \<or> timeout r)
       \<and> (\<not> (exception r \<or> timeout r) \<longrightarrow> length (output_list r) = 1)
       \<and> (exception r \<or> timeout r \<longrightarrow>
            r_out (validatorIn (copyResult w r)) = JStr ''timeout or exception'')
       \<and> (\<not> (exception r \<or> timeout r) \<longrightarrow>
            (\<exists>e. output_list r = [e] \<and> r_out (validatorIn (copyResult w r)) = jsonCopy w (ioValue e)))
       \<and> r_exception (validatorIn (copyResult w r)) = exception r
       \<and> r_timeout (validatorIn (copyResult w r)) = timeout r"
proof -
  define P where "P = (\<lambda>r::FuzzTestResult. \<not> (exception r \<and> timeout r)
       \<and> (output_list r = [] \<longleftrightarrow> exception r \<or> timeout r)
       \<and> (\<not> (exception r \<or> timeout r) \<longrightarrow> (\<exists>e. output_list r = [e])))"
  have "\<forall>r\<in>set (res_results res). P r"
  proof (rule fuzz_results [OF assms(1)])
    fix fn k s0 r'
    assume run: "runTest w env fn k (fst (takeInput w env s0)) = Inr r'"
    obtain r0 s1 where t: "takeInput w env s0 = (r0, s1)" by (cases "takeInput w env s0")
    from takeInput_fresh [OF t] have fresh: "output_list r0 = []" "\<not> exception r0" "\<not> timeout r0"
      by simp_all
    from run t have "runTest w env fn k r0 = Inr r'" by simp
    from runTest_outcome [OF this fresh] show "P r'"
      unfolding P_def by blast
  qed
  with assms(2) have "P r" by blast
  then show ?thesis
    unfolding P_def by (auto simp: validatorIn_def copyResult_def copyElements_def)
qed

theorem outcome_flags_and_output_witness:
  "fuzz exampleWorld throwingEnv [] = Some (Inr (oneTest threw))
   \<and> threw \<in> set (res_results (oneTest threw))
   \<and> exception threw \<and> \<not> timeout threw \<and> output_list threw = []
   \<and> r_out (validatorIn (copyResult exampleWorld threw)) = JStr ''timeout or exception''"
proof -
  have run: "fuzz exampleWorld throwingEnv [] = Some (Inr (oneTest threw))"
    by code_simp
  have mem: "threw \<in> set (res_results (oneTest threw))"
    by (simp add: oneTest_def)
  have flag: "exception threw"
    by (simp add: threw_def)
  from outcome_flags_and_output [OF run mem] run mem flag show ?thesis
    by simp
qed

text \<open>
  The field \<open>out\<close> alone does not tell the two cases apart: a function that returns the
  string \<^verbatim>\<open>"timeout or exception"\<close> neither throws nor times out, and its validator
  receives that string as \<open>out\<close>.
\<close>

theorem sentinel_returned_counterexample:
  "fuzz exampleWorld sentinelEnv [] = Some (Inr (oneTest returnedSentinel))
   \<and> \<not> exception returnedSentinel \<and> \<not> timeout returnedSentinel
   \<and> r_out (validatorIn (copyResult exampleWorld returnedSentinel)) = JStr ''timeout or exception''"
  by code_simp


section \<open>Pinned tests and the errors of a run\<close>

text \<open>
  C4, as the code has it. During one run all supplied pinned tests are consumed before
  any new input is generated, and they are consumed from the end of the list
  \<open>pinnedTests\<close> to its start (\<^verbatim>\<open>pop()\<close> takes the last element): an iteration that
  finds the list \<open>ts @ [t]\<close> tests the input of \<open>t\<close>, leaves \<open>ts\<close> and does not change
  \<open>inputsGenerated\<close>, so pinned tests do not count toward \<open>maxTests\<close>; only an iteration
  that finds the list empty generates an input. A finished run has consumed at most the
  supplied tests, and all of them if it has generated any input.
\<close>

theorem pinned_tests_first:
  "(iteration w env fn s = Inr s' \<and> pinnedTests s = ts @ [t] \<longrightarrow>
      input (fst (takeInput w env s)) = input t \<and> pinnedTests s' = ts
      \<and> inputsGenerated s' = inputsGenerated s \<and> savedCount s' = savedCount s + 1)
   \<and> (iteration w env fn s = Inr s' \<and> pinnedTests s = [] \<longrightarrow>
      pinnedTests s' = [] \<and> inputsGenerated s' = inputsGenerated s + 1
      \<and> savedCount s' = savedCount s)
   \<and> (fuzz w env pinned_tests = Some (Inr res) \<longrightarrow>
      res_inputsSaved res \<le> int (length pinned_tests)
      \<and> (res_inputsGenerated res \<noteq> 0 \<longrightarrow> res_inputsSaved res = int (length pinned_tests)))"
  using iteration_pinned [of w env fn s s' ts t] iteration_generated [of w env fn s s']
    fuzz_pinned_counts [of w env pinned_tests res]
  by blast

theorem pinned_tests_first_witness:
  "iteration exampleWorld exampleEnv exampleF (initialState [pinnedBool True, pinnedBool False])
     = Inr afterFirstPinned
   \<and> pinnedTests (initialState [pinnedBool True, pinnedBool False])
       = [pinnedBool True] @ [pinnedBool False]
   \<and> pinnedTests afterFirstPinned = [pinnedBool True]
   \<and> iteration exampleWorld exampleEnv exampleF (initialState []) = Inr afterFirstGenerated
   \<and> pinnedTests (initialState []) = []
   \<and> inputsGenerated afterFirstGenerated = inputsGenerated (initialState []) + 1
   \<and> fuzz exampleWorld exampleEnv [pinnedBool True, pinnedBool False] = Some (Inr pinnedRun)
   \<and> res_inputsSaved pinnedRun = 2"
proof -
  have it1: "iteration exampleWorld exampleEnv exampleF
      (initialState [pinnedBool True, pinnedBool False]) = Inr afterFirstPinned"
    by (simp add: run_defs afterFirstPinned_def)
  have it2: "iteration exampleWorld exampleEnv exampleF (initialState []) = Inr afterFirstGenerated"
    by (simp add: run_defs afterFirstGenerated_def)
  have run: "fuzz exampleWorld exampleEnv [pinnedBool True, pinnedBool False] = Some (Inr pinnedRun)"
    by code_simp
  have lists: "pinnedTests (initialState [pinnedBool True, pinnedBool False])
       = [pinnedBool True] @ [pinnedBool False]" "pinnedTests (initialState []) = []"
    by (simp_all add: initialState_def)
  from pinned_tests_first [of exampleWorld exampleEnv exampleF
      "initialState [pinnedBool True, pinnedBool False]" afterFirstPinned "[pinnedBool True]"
      "pinnedBool False" "[pinnedBool True, pinnedBool False]" pinnedRun]
    pinned_tests_first [of exampleWorld exampleEnv exampleF "initialState []" afterFirstGenerated
      "[]" "pinnedBool False" "[pinnedBool True, pinnedBool False]" pinnedRun]
    it1 it2 run lists
  show ?thesis by (simp add: pinnedRun_def)
qed

text \<open>
  The order of the list \<open>pinnedTests\<close> is not the order of consumption: of two pinned
  tests the second of the list is tested first.
\<close>

theorem pinned_order_counterexample:
  "fuzz exampleWorld exampleEnv [pinnedBool True, pinnedBool False] = Some (Inr pinnedRun)
   \<and> map input (res_results pinnedRun) = [input (pinnedBool False), input (pinnedBool True)]
   \<and> input (pinnedBool False) \<noteq> input (pinnedBool True)"
  by code_simp




section \<open>Duplicates and the end of a run\<close>

text \<open>
  C6, as the code has it. Duplicate detection happens before invocation: an iteration
  whose input has a serialization already recorded in this run does not call the function
  under test (the new state is the one below, whatever the function is, and the list of
  calls is unchanged), stores no result and increments both \<open>currentDupeCount\<close> and
  \<open>totalDupeCount\<close>; an iteration whose input is not a duplicate calls the function on
  it and resets \<open>currentDupeCount\<close> to 0. For a function with zero arguments no input
  is ever treated as a duplicate: a run counts no duplicates. For a function with
  arguments no two stored results of a run have the same serialized input, and when two
  identical pinned tests are supplied only the first is executed and recorded; the
  second is counted, as a saved test and as a duplicate.
\<close>

theorem duplicates_are_skipped:
  "(takeInput w env s = (result, s1) \<and> allInputs s (stringify w (input result)) \<noteq> None
      \<longrightarrow> iteration w env fn s =
            Inr (s1\<lparr>currentDupeCount := currentDupeCount s + 1,
                    totalDupeCount := totalDupeCount s + 1\<rparr>)
          \<and> calls s1 = calls s \<and> results s1 = results s)
   \<and> (takeInput w env s = (result, s1) \<and> allInputs s (stringify w (input result)) = None
        \<and> iteration w env fn s = Inr s'
      \<longrightarrow> currentDupeCount s' = 0 \<and> totalDupeCount s' = totalDupeCount s
          \<and> calls s' = calls s @ [input result])
   \<and> (argDefs env = [] \<and> fuzz w env pinned_tests = Some (Inr res) \<longrightarrow> res_dupesGenerated res = 0)
   \<and> (argDefs env \<noteq> [] \<and> fuzz w env pinned_tests = Some (Inr res)
      \<longrightarrow> distinct (map (\<lambda>r. stringify w (input r)) (res_results res)))
   \<and> (argDefs env \<noteq> [] \<and> iteration w env fn (initialState [t, t]) = Inr s2
        \<and> iteration w env fn (s2\<lparr>iter := 1\<rparr>) = Inr s3
      \<longrightarrow> calls s3 = [input t] \<and> results s3 = results s2 \<and> length (results s3) \<le> 1
          \<and> savedCount s3 = 2 \<and> totalDupeCount s3 = 1 \<and> currentDupeCount s3 = 1)"
  using iteration_duplicate [of w env s result s1 fn]
    takeInput_unchanged(1,2) [of w env s result s1]
    iteration_not_duplicate(1,2,3) [of w env s result s1 fn s']
    fuzz_no_arguments [of env w pinned_tests res]
    fuzz_distinct_results [of env w pinned_tests res]
    identical_pinned_tests [of env w fn t s2 s3]
  by blast

theorem duplicates_are_skipped_witness:
  "takeInput exampleWorld exampleEnv (afterFirstOfTwo\<lparr>iter := 1\<rparr>)
     = (initialResult\<lparr>input := boolInput True, pinned := True\<rparr>, secondTaken)
   \<and> allInputs (afterFirstOfTwo\<lparr>iter := 1\<rparr>)
        (stringify exampleWorld (input (initialResult\<lparr>input := boolInput True, pinned := True\<rparr>)))
       \<noteq> None
   \<and> iteration exampleWorld exampleEnv exampleF (afterFirstOfTwo\<lparr>iter := 1\<rparr>)
       = Inr (secondTaken\<lparr>currentDupeCount := 1, totalDupeCount := 1\<rparr>)
   \<and> takeInput exampleWorld exampleEnv (initialState [pinnedBool True, pinnedBool True])
       = (initialResult\<lparr>input := boolInput True, pinned := True\<rparr>,
          (initialState [pinnedBool True, pinnedBool True])
            \<lparr>pinnedTests := [pinnedBool True], savedCount := 1\<rparr>)
   \<and> allInputs (initialState [pinnedBool True, pinnedBool True])
        (stringify exampleWorld (input (initialResult\<lparr>input := boolInput True, pinned := True\<rparr>)))
       = None
   \<and> iteration exampleWorld exampleEnv exampleF (initialState [pinnedBool True, pinnedBool True])
       = Inr afterFirstOfTwo
   \<and> calls afterFirstOfTwo = [boolInput True]
   \<and> argDefs zeroArgEnv = [] \<and> fuzz exampleWorld zeroArgEnv [] = Some (Inr zeroArgRun)
   \<and> res_dupesGenerated zeroArgRun = 0
   \<and> argDefs exampleEnv \<noteq> []
   \<and> fuzz exampleWorld exampleEnv [pinnedBool True, pinnedBool False] = Some (Inr pinnedRun)
   \<and> distinct (map (\<lambda>r. stringify exampleWorld (input r)) (res_results pinnedRun))"
proof -
  let ?r = "initialResult\<lparr>input := boolInput True, pinned := True\<rparr>"
  let ?s0 = "initialState [pinnedBool True, pinnedBool True]"
  have take1: "takeInput exampleWorld exampleEnv ?s0
      = (?r, ?s0\<lparr>pinnedTests := [pinnedBool True], savedCount := 1\<rparr>)"
    by (simp add: takeInput_def initialState_def pinnedBool_def initialResult_def)
  have new1: "allInputs ?s0 (stringify exampleWorld (input ?r)) = None"
    by (simp add: initialState_def)
  have it1: "iteration exampleWorld exampleEnv exampleF ?s0 = Inr afterFirstOfTwo"
    by (simp add: run_defs afterFirstOfTwo_def)
  have take2: "takeInput exampleWorld exampleEnv (afterFirstOfTwo\<lparr>iter := 1\<rparr>) = (?r, secondTaken)"
    by (simp add: takeInput_def afterFirstOfTwo_def secondTaken_def pinnedBool_def
          initialResult_def)
  have dup2: "allInputs (afterFirstOfTwo\<lparr>iter := 1\<rparr>) (stringify exampleWorld (input ?r)) \<noteq> None"
    by (simp add: afterFirstOfTwo_def exampleWorld_def exampleStringify_def boolInput_def)
  have it2: "iteration exampleWorld exampleEnv exampleF (afterFirstOfTwo\<lparr>iter := 1\<rparr>)
      = Inr (secondTaken\<lparr>currentDupeCount := 1, totalDupeCount := 1\<rparr>)"
    using iteration_duplicate [OF take2 dup2, of exampleF]
    by (simp add: afterFirstOfTwo_def secondTaken_def)
  have args: "argDefs zeroArgEnv = []" "argDefs exampleEnv \<noteq> []"
    by (simp_all add: zeroArgEnv_def exampleEnv_def)
  have run0: "fuzz exampleWorld zeroArgEnv [] = Some (Inr zeroArgRun)"
    by code_simp
  have run1: "fuzz exampleWorld exampleEnv [pinnedBool True, pinnedBool False] = Some (Inr pinnedRun)"
    by code_simp
  from duplicates_are_skipped [of exampleWorld exampleEnv "afterFirstOfTwo\<lparr>iter := 1\<rparr>" ?r
      secondTaken exampleF afterFirstOfTwo "[pinnedBool True, pinnedBool False]" pinnedRun
      "pinnedBool True" afterFirstOfTwo "secondTaken\<lparr>currentDupeCount := 1, totalDupeCount := 1\<rparr>"]
    duplicates_are_skipped [of exampleWorld exampleEnv ?s0 ?r
      "?s0\<lparr>pinnedTests := [pinnedBool True], savedCount := 1\<rparr>" exampleF afterFirstOfTwo
      "[pinnedBool True, pinnedBool False]" pinnedRun
      "pinnedBool True" afterFirstOfTwo "secondTaken\<lparr>currentDupeCount := 1, totalDupeCount := 1\<rparr>"]
    duplicates_are_skipped [of exampleWorld zeroArgEnv ?s0 ?r
      "?s0\<lparr>pinnedTests := [pinnedBool True], savedCount := 1\<rparr>" exampleF afterFirstOfTwo
      "[]" zeroArgRun
      "pinnedBool True" afterFirstOfTwo "secondTaken\<lparr>currentDupeCount := 1, totalDupeCount := 1\<rparr>"]
    take1 new1 it1 take2 dup2 it2 args run0 run1
  show ?thesis by (simp add: afterFirstOfTwo_def)
qed

text \<open>
  For a function without arguments two identical pinned tests are both executed and both
  recorded.
\<close>

theorem identical_pinned_tests_counterexample:
  "argDefs zeroArgEnv = []
   \<and> fuzz exampleWorld (zeroArgEnv\<lparr>options := oneTestOptions\<rparr>) [pinnedEmpty, pinnedEmpty] =
       Some (Inr \<lparr>stopReason = MAXTESTS, res_inputsGenerated = 1, res_dupesGenerated = 0,
            res_inputsSaved = 2,
            res_results = [testedNothing True, testedNothing True, testedNothing False]\<rparr>)"
  by code_simp

text \<open>
  C7, as the code has it. For a function with at least one argument whose generated
  inputs have fewer distinct serializations than \<open>maxTests\<close> (they all lie in a finite
  set \<open>space\<close> with fewer elements), a run with valid options and a \<open>maxDupeInputs\<close>
  that is not \<open>Infinity\<close>, in which no exception leaves the loop (\<open>recovers\<close>), terminates
  with a result, \<open>inputsGenerated - totalDupeCount\<close> stays below \<open>maxTests\<close>, and the
  stop reason is never \<open>MAXTESTS\<close>: it is \<open>MAXDUPES\<close> unless the suite timeout or the
  failure limit fires first, and it is \<open>MAXDUPES\<close> when the clock never reaches the suite
  timeout and \<open>maxFailures\<close> is 0.
\<close>

theorem small_input_space_stops_by_duplicates:
  assumes "argDefs env \<noteq> []"
    and "finite space" and "\<forall>n. stringify w (generateInput w env n) \<in> space"
    and "jsLt (Finite (real (card space))) (maxTests (options env))"
    and "maxDupeInputs (options env) \<noteq> PosInfinity"
    and "isOptionValid (options env)" and "modl w (fnName env) = Some (Function fn)"
    and "recovers w env fn"
  shows "\<exists>res. fuzz w env pinned_tests = Some (Inr res)
           \<and> jsLt (num (res_inputsGenerated res - res_dupesGenerated res))
                (maxTests (options env))
           \<and> (stopReason res = MAXDUPES \<or> stopReason res = MAXTIME
                \<or> stopReason res = MAXFAILURES)
           \<and> ((\<forall>k. \<not> jsGe (num (clock w k - clock w 0)) (suiteTimeout (options env)))
                \<and> maxFailures (options env) = Finite 0 \<longrightarrow> stopReason res = MAXDUPES)"
proof -
  from assms(5,6) obtain md where md: "maxDupeInputs (options env) = Finite md"
    by (cases "maxDupeInputs (options env)") (auto simp: isOptionValid_def)
  from fuzz_loop_small_space [OF assms(1-3) md assms(8)] obtain res where
    loop: "fuzz_loop w env fn (initialState pinned_tests) = Some (Inr res)" by blast
  with assms(6,7) have run: "fuzz w env pinned_tests = Some (Inr res)" by (simp add: fuzz_def)
  define I where "I = (\<lambda>s::LoopState.
    inputsGenerated s - totalDupeCount s \<le> int (card (dom (allInputs s) \<inter> space)))"
  have init: "I (initialState pinned_tests)" by (simp add: I_def initialState_def)
  have step: "I (s'\<lparr>iter := Suc (iter s)\<rparr>)" if "I s" and "iteration w env fn s = Inr s'" for s s'
    using tests_bounded_invariant [OF assms(1-3) that(2)] that(1) by (simp add: I_def)
  from fuzz_loop_invariant [OF loop init step]
  obtain sf where sf: "I sf" "res_inputsGenerated res = inputsGenerated sf"
    "res_dupesGenerated res = totalDupeCount sf"
    and stop: "checkStopCondition (clock w (Suc (iter sf))) env (inputsGenerated sf)
                 (currentDupeCount sf) (totalDupeCount sf) (failureCount sf) (clock w 0)
               = Some (stopReason res)"
    by blast
  have "card (dom (allInputs sf) \<inter> space) \<le> card space"
    using assms(2) by (intro card_mono) auto
  with sf(1) have "real_of_int (inputsGenerated sf - totalDupeCount sf) \<le> real (card space)"
    unfolding I_def by linarith
  from jsLt_below [OF assms(4) this]
  have few: "jsLt (num (inputsGenerated sf - totalDupeCount sf)) (maxTests (options env))"
    and not_tests: "\<not> jsGe (num (inputsGenerated sf - totalDupeCount sf)) (maxTests (options env))"
    by simp_all
  from stop not_tests have "stopReason res = MAXDUPES \<or> stopReason res = MAXTIME
      \<or> stopReason res = MAXFAILURES"
    by (auto simp: checkStopCondition_def split: if_splits)
  moreover from stop not_tests have "stopReason res = MAXDUPES"
    if "\<forall>k. \<not> jsGe (num (clock w k - clock w 0)) (suiteTimeout (options env))"
      "maxFailures (options env) = Finite 0"
    using that(2) spec [OF that(1), of "Suc (iter sf)"]
    by (auto simp: checkStopCondition_def split: if_splits)
  ultimately show ?thesis using run few sf(2,3) by auto
qed

theorem small_input_space_stops_by_duplicates_witness:
  "argDefs (exampleEnv\<lparr>options := claimOptions\<rparr>) \<noteq> []
   \<and> finite {''T'', ''F''}
   \<and> (\<forall>n. stringify exampleWorld
              (generateInput exampleWorld (exampleEnv\<lparr>options := claimOptions\<rparr>) n)
            \<in> {''T'', ''F''})
   \<and> jsLt (Finite (real (card {''T'', ''F''})))
        (maxTests (options (exampleEnv\<lparr>options := claimOptions\<rparr>)))
   \<and> maxDupeInputs (options (exampleEnv\<lparr>options := claimOptions\<rparr>)) \<noteq> PosInfinity
   \<and> isOptionValid (options (exampleEnv\<lparr>options := claimOptions\<rparr>))
   \<and> modl exampleWorld (fnName (exampleEnv\<lparr>options := claimOptions\<rparr>))
       = Some (Function exampleF)
   \<and> recovers exampleWorld (exampleEnv\<lparr>options := claimOptions\<rparr>) exampleF
   \<and> (\<forall>k. \<not> jsGe (num (clock exampleWorld k - clock exampleWorld 0))
              (suiteTimeout (options (exampleEnv\<lparr>options := claimOptions\<rparr>))))
   \<and> maxFailures (options (exampleEnv\<lparr>options := claimOptions\<rparr>)) = Finite 0
   \<and> fuzz exampleWorld (exampleEnv\<lparr>options := claimOptions\<rparr>) [] = Some (Inr claimRun)
   \<and> stopReason claimRun = MAXDUPES"
proof -
  let ?env = "exampleEnv\<lparr>options := claimOptions\<rparr>"
  have args: "argDefs ?env \<noteq> []" by (simp add: exampleEnv_def)
  have fin: "finite {''T'', ''F''}" by simp
  have space: "\<forall>n. stringify exampleWorld (generateInput exampleWorld ?env n) \<in> {''T'', ''F''}"
    by (simp add: exampleWorld_def exampleStringify_def generateInput_def exampleEnv_def)
  have few: "jsLt (Finite (real (card {''T'', ''F''}))) (maxTests (options ?env))"
    by (simp add: claimOptions_def)
  have dupes: "maxDupeInputs (options ?env) \<noteq> PosInfinity"
    by (simp add: claimOptions_def)
  have valid: "isOptionValid (options ?env)"
    by (simp add: isOptionValid_def claimOptions_def exampleOptions_def)
  have target: "modl exampleWorld (fnName ?env) = Some (Function exampleF)"
    by (simp add: exampleWorld_def exampleEnv_def)
  have rec: "recovers exampleWorld ?env exampleF"
    by (simp add: recovers_def exampleF_def exampleEnv_def split: list.splits)
  have time: "\<forall>k. \<not> jsGe (num (clock exampleWorld k - clock exampleWorld 0))
              (suiteTimeout (options ?env))"
    by (simp add: exampleWorld_def claimOptions_def exampleOptions_def)
  have fails: "maxFailures (options ?env) = Finite 0"
    by (simp add: claimOptions_def exampleOptions_def)
  have run: "fuzz exampleWorld ?env [] = Some (Inr claimRun)"
    by code_simp
  from small_input_space_stops_by_duplicates [OF args fin space few dupes valid target rec,
      of "[]"]
    args fin space few dupes valid target rec time fails run
  show ?thesis by (simp add: claimRun_def)
qed

text \<open>
  A function without arguments has one possible input, fewer than \<open>maxTests = 3\<close>, its
  inputs are never recorded as seen, and the run stops by \<open>MAXTESTS\<close>. And for the
  function \<open>f\<close> of one boolean argument, two possible inputs and \<open>maxTests = 5\<close>, the
  options with \<open>maxDupeInputs = Infinity\<close> are valid and the run never stops: no stop
  reason is produced.
\<close>

theorem small_input_space_counterexample:
  "argDefs zeroArgEnv = [] \<and> maxTests (options zeroArgEnv) = Finite 3
   \<and> maxDupeInputs (options zeroArgEnv) = Finite 2
   \<and> generateInput exampleWorld zeroArgEnv 0 = generateInput exampleWorld zeroArgEnv 1
   \<and> fuzz exampleWorld zeroArgEnv [] =
       Some (Inr \<lparr>stopReason = MAXTESTS, res_inputsGenerated = 3, res_dupesGenerated = 0,
            res_inputsSaved = 0,
            res_results = [testedNothing False, testedNothing False, testedNothing False]\<rparr>)
   \<and> argDefs exampleEnv \<noteq> []
   \<and> isOptionValid (claimOptions\<lparr>maxDupeInputs := PosInfinity\<rparr>)
   \<and> maxTests (claimOptions\<lparr>maxDupeInputs := PosInfinity\<rparr>) = Finite 5
   \<and> fuzz exampleWorld (exampleEnv\<lparr>options := claimOptions\<lparr>maxDupeInputs := PosInfinity\<rparr>\<rparr>) []
       = None"
proof -
  let ?env = "exampleEnv\<lparr>options := claimOptions\<lparr>maxDupeInputs := PosInfinity\<rparr>\<rparr>"
  have zero: "argDefs zeroArgEnv = [] \<and> maxTests (options zeroArgEnv) = Finite 3
   \<and> maxDupeInputs (options zeroArgEnv) = Finite 2
   \<and> generateInput exampleWorld zeroArgEnv 0 = generateInput exampleWorld zeroArgEnv 1
   \<and> fuzz exampleWorld zeroArgEnv [] =
       Some (Inr \<lparr>stopReason = MAXTESTS, res_inputsGenerated = 3, res_dupesGenerated = 0,
            res_inputsSaved = 0,
            res_results = [testedNothing False, testedNothing False, testedNothing False]\<rparr>)"
    by code_simp
  have args: "argDefs ?env \<noteq> []" "argDefs exampleEnv \<noteq> []" by (simp_all add: exampleEnv_def)
  have fin: "finite {''T'', ''F''}" by simp
  have space: "\<forall>n. stringify exampleWorld (generateInput exampleWorld ?env n) \<in> {''T'', ''F''}"
    by (simp add: exampleWorld_def exampleStringify_def generateInput_def exampleEnv_def)
  have few: "jsLt (Finite (real (card {''T'', ''F''}))) (maxTests (options ?env))"
    by (simp add: claimOptions_def)
  have opts: "maxDupeInputs (options ?env) = PosInfinity" "maxFailures (options ?env) = Finite 0"
    "isOptionValid (claimOptions\<lparr>maxDupeInputs := PosInfinity\<rparr>)"
    "maxTests (claimOptions\<lparr>maxDupeInputs := PosInfinity\<rparr>) = Finite 5"
    by (simp_all add: isOptionValid_def claimOptions_def exampleOptions_def)
  have time: "\<forall>k. \<not> jsGe (num (clock exampleWorld k - clock exampleWorld 0))
              (suiteTimeout (options ?env))"
    by (simp add: exampleWorld_def claimOptions_def exampleOptions_def)
  have target: "modl exampleWorld (fnName ?env) = Some (Function exampleF)"
    by (simp add: exampleWorld_def exampleEnv_def)
  have rec: "recovers exampleWorld ?env exampleF"
    by (simp add: recovers_def exampleF_def exampleEnv_def split: list.splits)
  from fuzz_loop_small_space_never_ends [OF args(1) fin space few opts(1,2) time rec, of "[]"]
    opts(3) target
  have "fuzz exampleWorld ?env [] = None" by (simp add: fuzz_def)
  with zero args(2) opts(3,4) show ?thesis by simp
qed

end
